theory Spec2Isabelle
  imports Complex_Main "HOL-Library.Word" "HOL-Library.Multiset"
begin

section \<open>Strings and numbers of the source language\<close>

text \<open>
  The service is written in TypeScript. A string of the source is a sequence of UTF-16
  code units, so a character is a 16-bit word and a string a list of them. A value of
  type \<open>number\<close> is idealised as a real; array indices, lengths and counters are
  natural numbers.
\<close>

type_synonym jschar = "16 word"
type_synonym jsstring = "jschar list"

text \<open>Source literals are written as ASCII strings and converted code unit by code unit.\<close>

definition js :: "string \<Rightarrow> jsstring" where
  "js s = map (\<lambda>c. word_of_nat (of_char c)) s"

section \<open>The chunker\<close>

text \<open>
  The character class \<open>\s\<close> of a regular expression, which is also the set of
  characters that \<open>String.prototype.trim\<close> strips: tab, line feed, vertical tab, form
  feed, carriage return, space, no-break space, the space separators of Unicode, the
  line and paragraph separators and the byte order mark.
\<close>

definition is_ws :: "jschar \<Rightarrow> bool" where
  "is_ws c \<longleftrightarrow>
     c \<in> set [0x09, 0x0A, 0x0B, 0x0C, 0x0D, 0x20, 0xA0, 0x1680, 0x2028, 0x2029,
              0x202F, 0x205F, 0x3000, 0xFEFF]
     \<or> (0x2000 \<le> c \<and> c \<le> 0x200A)"

text \<open>
  \<open>text.split(/\s+/)\<close>: the pieces between the maximal runs of whitespace. A run at
  the very start or the very end of the text leaves an empty string as first or last
  piece, and the empty text splits into one empty string.
\<close>

function split_ws :: "jsstring \<Rightarrow> jsstring list" where
  "split_ws s =
     (let w = takeWhile (\<lambda>c. \<not> is_ws c) s;
          r = dropWhile (\<lambda>c. \<not> is_ws c) s
      in case r of [] \<Rightarrow> [w] | _ # r' \<Rightarrow> w # split_ws (dropWhile is_ws r'))"
  by pat_completeness auto
termination
proof (relation "measure length")
  fix s :: jsstring and w r c r'
  assume "r = dropWhile (\<lambda>c. \<not> is_ws c) s" and "r = c # r'"
  then have "length r' < length s"
    by (metis length_dropWhile_le length_Cons less_Suc_eq_le not_less)
  moreover have "length (dropWhile is_ws r') \<le> length r'"
    by (rule length_dropWhile_le)
  ultimately show "(dropWhile is_ws r', s) \<in> measure length"
    by simp
qed simp

declare split_ws.simps [simp del]

text \<open>\<open>s.trim()\<close>\<close>

definition trim :: "jsstring \<Rightarrow> jsstring" where
  "trim s = rev (dropWhile is_ws (rev (dropWhile is_ws s)))"

text \<open>\<open>xs.join(sep)\<close>\<close>

fun join :: "jsstring \<Rightarrow> jsstring list \<Rightarrow> jsstring" where
  "join sep [] = []"
| "join sep [x] = x"
| "join sep (x # y # ys) = x @ sep @ join sep (y # ys)"

text \<open>\<open>xs.slice(b, e)\<close> for indices \<open>0 \<le> b \<le> e\<close>; an end beyond the array is clipped.\<close>

definition slice_list :: "'a list \<Rightarrow> nat \<Rightarrow> nat \<Rightarrow> 'a list" where
  "slice_list xs b e = take (e - b) (drop b xs)"

text \<open>
  The loop of \<open>chunkText\<close>, with the loop variable \<open>i\<close> and the array \<open>chunks\<close> as
  arguments. With \<open>wordsPerChunk = 0\<close> the index never advances and the loop does not
  return, which is the value \<open>None\<close>.
\<close>

partial_function (option) chunkText_loop ::
  "jsstring list \<Rightarrow> nat \<Rightarrow> nat \<Rightarrow> jsstring list \<Rightarrow> jsstring list option" where
  "chunkText_loop words wordsPerChunk i chunks =
     (if i < length words then
        (let chunk = join (js '' '') (slice_list words i (i + wordsPerChunk))
         in chunkText_loop words wordsPerChunk (i + wordsPerChunk)
              (if length (trim chunk) > 0 then chunks @ [trim chunk] else chunks))
      else Some chunks)"

definition chunkText :: "jsstring \<Rightarrow> nat \<Rightarrow> jsstring list option" where
  "chunkText text wordsPerChunk = chunkText_loop (split_ws text) wordsPerChunk 0 []"


text \<open>
  Vocabulary for the statements about the chunker: the successive windows of at most
  \<open>n\<close> entries that the loop slices off, the chunk (if any) a window contributes, and
  the words of a string, which are the non-empty pieces of its split.
\<close>

function windows :: "nat \<Rightarrow> 'a list \<Rightarrow> 'a list list" where
  "windows n xs = (if n = 0 \<or> xs = [] then [] else take n xs # windows n (drop n xs))"
  by pat_completeness auto
termination
  by (relation "measure (\<lambda>(n, xs). length xs)") auto

declare windows.simps [simp del]

definition piece :: "jsstring list \<Rightarrow> jsstring list" where
  "piece win =
     (let chunk = join (js '' '') win
      in if length (trim chunk) > 0 then [trim chunk] else [])"

definition tokens :: "jsstring \<Rightarrow> jsstring list" where
  "tokens s = filter (\<lambda>w. w \<noteq> []) (split_ws s)"

section \<open>Configuration, failures and the outside world\<close>

text \<open>
  The module constant \<open>EMBEDDING_DIMENSION\<close> (``Choose embedding dimension (768 or
  1536)'') is set to 768. The functions that read it take it as their first argument
  \<open>dimension\<close>, so that their behaviour under the other setting can be stated as well;
  the program itself always runs them with \<open>EMBEDDING_DIMENSION\<close>.
\<close>

definition EMBEDDING_DIMENSION :: nat where
  "EMBEDDING_DIMENSION = 768"

text \<open>What a \<open>throw\<close> carries, by the place that raised it.\<close>

datatype error =
    StoreUnavailable
  | StatementRejected
  | SourceUnavailable
  | UnknownArticle
  | MissingApiKey
  | EmbeddingUnavailable
  | ExtractionFailed
  | TypeError
  | GenerationUnavailable

text \<open>
  A row of the table \<open>knowledge_base\<close>, with the columns the service reads and writes.
  The key \<open>id\<close> and the two timestamps are assigned by the database and left out.
\<close>

record row =
  source :: jsstring
  source_id :: jsstring
  chunk_index :: nat
  chunk_content :: jsstring
  embeddings_768 :: "real list option"
  embeddings_1536 :: "real list option"

text \<open>
  Every call that leaves the process is recorded, in order, together with the one
  diagnostic of \<open>findSimilarChunks\<close> that marks its guard branch.
\<close>

datatype event =
    DbCount jsstring jsstring
  | DbCountAll
  | DbDestroy jsstring jsstring
  | DbInsert jsstring jsstring nat
  | DbQuery
  | ReadPdf jsstring
  | FetchArticle jsstring
  | FetchSlack jsstring nat
  | EmbedContent jsstring
  | GenerateContent jsstring
  | InvalidEmbedding

record world =
  rows :: "row list"
  clock :: nat
  trace :: "event list"

text \<open>The outcome of \<open>fetch\<close>: it throws, or it delivers a status and a body.\<close>

datatype 'a fetched = Throws | Status bool 'a

record slack_msg =
  msg_user :: "jsstring option"
  msg_text :: "jsstring option"

record slack_page =
  messages :: "slack_msg list option"
  hasMore :: "bool option"

text \<open>
  The collaborators. \<open>db_up n\<close> tells whether the \<open>n\<close>-th statement sent to the
  database reaches it and is carried out; \<open>to_single\<close> is the number that a vector
  column keeps for a given number (the column holds its entries in single precision);
  \<open>embedContent\<close> delivers the value of the local variable \<open>embedding\<close> after the
  shape inspection of lines 48 to 62 (\<open>None\<close> when it is not an array); \<open>readPdf\<close>
  stands for reading and parsing a file (lines 107 to 145).
\<close>

record env =
  db_up :: "nat \<Rightarrow> bool"
  to_single :: "real \<Rightarrow> real"
  api_key :: bool
  embedContent :: "jsstring \<Rightarrow> error + real list option"
  readPdf :: "jsstring \<Rightarrow> error + jsstring"
  fetchArticle :: "jsstring \<Rightarrow> jsstring fetched"
  slackPage :: "jsstring \<Rightarrow> nat \<Rightarrow> slack_page fetched"
  generateContent :: "jsstring \<Rightarrow> error + jsstring"

definition emit :: "event \<Rightarrow> world \<Rightarrow> world" where
  "emit ev w = w\<lparr>trace := trace w @ [ev]\<rparr>"

text \<open>Sending one statement: the answer is whether the database took it.\<close>

definition db_call :: "env \<Rightarrow> event \<Rightarrow> world \<Rightarrow> bool \<times> world" where
  "db_call env ev w = (db_up env (clock w), emit ev (w\<lparr>clock := clock w + 1\<rparr>))"

section \<open>The embedding adapter\<close>

text \<open>
  \<open>getEmbedding\<close>: without an API key nothing is sent. Otherwise the model is called;
  an error of the call, a value that is not an array and an empty array all end in a
  \<open>throw\<close>. An array is cut to 768 entries or filled with zeros up to 768 when the
  dimension is 768, and cut or filled to 1536 in every other case. Whatever is thrown
  inside is logged and thrown again.
\<close>

definition getEmbedding ::
  "nat \<Rightarrow> env \<Rightarrow> jsstring \<Rightarrow> world \<Rightarrow> (error + real list) \<times> world" where
  "getEmbedding dimension env text w =
     (if \<not> api_key env then (Inl MissingApiKey, w)
      else
        let w' = emit (EmbedContent text) w in
        case embedContent env text of
          Inl e \<Rightarrow> (Inl e, w')
        | Inr None \<Rightarrow> (Inl ExtractionFailed, w')
        | Inr (Some embedding) \<Rightarrow>
            if length embedding = 0 then (Inl ExtractionFailed, w')
            else if dimension = 768 then
              (if length embedding \<ge> 768 then (Inr (take 768 embedding), w')
               else (Inr (embedding @ replicate (768 - length embedding) 0), w'))
            else
              (if length embedding \<ge> 1536 then (Inr (take 1536 embedding), w')
               else (Inr (embedding @ replicate (1536 - length embedding) 0), w')))"

section \<open>The source adapters\<close>

text \<open>
  \<open>loadPDF\<close> and \<open>loadArticle\<close> log what goes wrong and throw it again. An article
  must be one of the five known ones, and a response with a bad status is an error.
\<close>

definition loadPDF :: "env \<Rightarrow> jsstring \<Rightarrow> world \<Rightarrow> (error + jsstring) \<times> world" where
  "loadPDF env filePath w = (readPdf env filePath, emit (ReadPdf filePath) w)"

definition articleIds :: "jsstring list" where
  "articleIds = [js ''military-deployment-report'', js ''urban-commuting'', js ''hover-polo'',
                 js ''warehousing'', js ''consumer-safety'']"

definition loadArticle :: "env \<Rightarrow> jsstring \<Rightarrow> world \<Rightarrow> (error + jsstring) \<times> world" where
  "loadArticle env articleId w =
     (if articleId \<notin> set articleIds then (Inl UnknownArticle, w)
      else
        let w' = emit (FetchArticle articleId) w in
        case fetchArticle env articleId of
          Throws \<Rightarrow> (Inl SourceUnavailable, w')
        | Status ok body \<Rightarrow> if \<not> ok then (Inl SourceUnavailable, w') else (Inr body, w'))"

text \<open>
  One message as text. An absent or empty field is falsy, so the speaker is put in front
  only when both fields are present and non-empty.
\<close>

definition formatMessage :: "slack_msg \<Rightarrow> jsstring" where
  "formatMessage msg =
     (case (msg_user msg, msg_text msg) of
        (Some u, Some t) \<Rightarrow> if u \<noteq> [] \<and> t \<noteq> [] then u @ js '': '' @ t else t
      | (None, Some t) \<Rightarrow> t
      | (_, None) \<Rightarrow> [])"

definition pageMessages :: "slack_page \<Rightarrow> jsstring list" where
  "pageMessages data =
     (case messages data of
        None \<Rightarrow> []
      | Some msgs \<Rightarrow> filter (\<lambda>text. length (trim text) > 0) (map formatMessage msgs))"

text \<open>
  The pagination loop of \<open>loadSlackChannel\<close>. A page that cannot be fetched ends it:
  a bad status by \<open>break\<close>, a thrown error through the \<open>catch\<close> that encloses the loop,
  and either way the messages gathered so far are returned. A feed that always reports
  more pages keeps the loop running, which is the value \<open>None\<close>.
\<close>

partial_function (option) loadSlackChannel_loop ::
  "env \<Rightarrow> jsstring \<Rightarrow> nat \<Rightarrow> jsstring list \<Rightarrow> world \<Rightarrow> ((error + jsstring list) \<times> world) option"
  where
  "loadSlackChannel_loop env channel page msgs w =
     (let w' = emit (FetchSlack channel page) w in
      case slackPage env channel page of
        Throws \<Rightarrow> Some (Inr msgs, w')
      | Status ok data \<Rightarrow>
          if \<not> ok then Some (Inr msgs, w')
          else
            let msgs' = msgs @ pageMessages data;
                more = (hasMore data \<noteq> Some False \<and>
                        (case messages data of None \<Rightarrow> False | Some ms \<Rightarrow> length ms > 0))
            in if more then loadSlackChannel_loop env channel (page + 1) msgs' w'
               else Some (Inr msgs', w'))"

definition loadSlackChannel ::
  "env \<Rightarrow> jsstring \<Rightarrow> world \<Rightarrow> ((error + jsstring list) \<times> world) option" where
  "loadSlackChannel env channel w = loadSlackChannel_loop env channel 1 [] w"


section \<open>The knowledge store\<close>

definition matches :: "jsstring \<Rightarrow> jsstring \<Rightarrow> row \<Rightarrow> bool" where
  "matches src sid r \<longleftrightarrow> source r = src \<and> source_id r = sid"

text \<open>\<open>KnowledgeBase.count({ where: { source, source_id } })\<close>\<close>

definition kb_count_where ::
  "env \<Rightarrow> jsstring \<Rightarrow> jsstring \<Rightarrow> world \<Rightarrow> (error + nat) \<times> world" where
  "kb_count_where env src sid w =
     (case db_call env (DbCount src sid) w of
        (True, w') \<Rightarrow> (Inr (length (filter (matches src sid) (rows w'))), w')
      | (False, w') \<Rightarrow> (Inl StoreUnavailable, w'))"

text \<open>\<open>KnowledgeBase.count()\<close>\<close>

definition kb_count :: "env \<Rightarrow> world \<Rightarrow> (error + nat) \<times> world" where
  "kb_count env w =
     (case db_call env DbCountAll w of
        (True, w') \<Rightarrow> (Inr (length (rows w')), w')
      | (False, w') \<Rightarrow> (Inl StoreUnavailable, w'))"

text \<open>\<open>KnowledgeBase.destroy({ where: { source, source_id } })\<close>\<close>

definition kb_destroy ::
  "env \<Rightarrow> jsstring \<Rightarrow> jsstring \<Rightarrow> world \<Rightarrow> (error + unit) \<times> world" where
  "kb_destroy env src sid w =
     (case db_call env (DbDestroy src sid) w of
        (True, w') \<Rightarrow> (Inr (), w'\<lparr>rows := filter (\<lambda>r. \<not> matches src sid r) (rows w')\<rparr>)
      | (False, w') \<Rightarrow> (Inl StoreUnavailable, w'))"

text \<open>
  The \<open>INSERT\<close> statement of \<open>storeChunks\<close>. The statement casts the vector to
  \<open>vector(dimension)\<close>, and the cast fails for a vector of any other length. The
  vector goes into the column that the configured dimension selects, entry by entry in
  single precision; the other column stays \<open>NULL\<close>. Doubling the quotes is how the
  statement writes the text, so the stored text is the chunk itself. The statement runs
  on its own: nothing encloses the statements of \<open>storeChunks\<close> in a transaction.
\<close>

definition new_row ::
  "nat \<Rightarrow> jsstring \<Rightarrow> jsstring \<Rightarrow> nat \<Rightarrow> jsstring \<Rightarrow> real list \<Rightarrow> row" where
  "new_row dimension src sid i content vec =
     \<lparr>source = src, source_id = sid, chunk_index = i, chunk_content = content,
      embeddings_768 = (if dimension = 768 then Some vec else None),
      embeddings_1536 = (if dimension = 768 then None else Some vec)\<rparr>"

definition kb_insert ::
  "nat \<Rightarrow> env \<Rightarrow> jsstring \<Rightarrow> jsstring \<Rightarrow> nat \<Rightarrow> jsstring \<Rightarrow> real list \<Rightarrow> world
   \<Rightarrow> (error + unit) \<times> world" where
  "kb_insert dimension env src sid i content vec w =
     (case db_call env (DbInsert src sid i) w of
        (False, w') \<Rightarrow> (Inl StoreUnavailable, w')
      | (True, w') \<Rightarrow>
          if length vec \<noteq> dimension then (Inl StatementRejected, w')
          else
            (Inr (),
             w'\<lparr>rows := rows w' @
                    [new_row dimension src sid i content (map (to_single env) vec)]\<rparr>))"

text \<open>
  \<open>sourceExists\<close>: a failure of the count is caught, and the answer is then \<open>false\<close>.
\<close>

definition sourceExists ::
  "env \<Rightarrow> jsstring \<Rightarrow> jsstring \<Rightarrow> world \<Rightarrow> (error + bool) \<times> world" where
  "sourceExists env src sid w =
     (case kb_count_where env src sid w of
        (Inr cnt, w') \<Rightarrow> (Inr (cnt > 0), w')
      | (Inl e, w') \<Rightarrow> (Inr False, w'))"

text \<open>
  The insertion loop of \<open>storeChunks\<close>: \<open>cs\<close> holds \<open>chunks[i]\<close>, \<open>chunks[i + 1]\<close> and
  so on. Reading \<open>embeddings[i]\<close> beyond the end of the array gives \<open>undefined\<close>, and
  calling \<open>join\<close> on it throws.
\<close>

fun storeChunks_loop ::
  "nat \<Rightarrow> env \<Rightarrow> jsstring \<Rightarrow> jsstring \<Rightarrow> jsstring list \<Rightarrow> real list list \<Rightarrow> nat \<Rightarrow> world
   \<Rightarrow> (error + unit) \<times> world" where
  "storeChunks_loop dimension env src sid [] embeddings i w = (Inr (), w)"
| "storeChunks_loop dimension env src sid (c # cs) embeddings i w =
     (if i \<ge> length embeddings then (Inl TypeError, w)
      else
        case kb_insert dimension env src sid i c (embeddings ! i) w of
          (Inl e, w') \<Rightarrow> (Inl e, w')
        | (Inr _, w') \<Rightarrow> storeChunks_loop dimension env src sid cs embeddings (i + 1) w')"

definition storeChunks ::
  "nat \<Rightarrow> env \<Rightarrow> jsstring \<Rightarrow> jsstring \<Rightarrow> jsstring list \<Rightarrow> real list list \<Rightarrow> world
   \<Rightarrow> (error + unit) \<times> world" where
  "storeChunks dimension env src sid chunks embeddings w =
     (case kb_destroy env src sid w of
        (Inl e, w') \<Rightarrow> (Inl e, w')
      | (Inr _, w') \<Rightarrow> storeChunks_loop dimension env src sid chunks embeddings 0 w')"

section \<open>Similarity search\<close>

definition embeddingField :: "nat \<Rightarrow> row \<Rightarrow> real list option" where
  "embeddingField dimension r = (if dimension = 768 then embeddings_768 r else embeddings_1536 r)"

text \<open>
  The query of \<open>findSimilarChunks\<close>, read clause by clause: the rows whose vector is not
  \<open>NULL\<close>, in ascending order of the distance \<open>distance\<close> between the stored vector and the
  question (the operator \<open><=>\<close> of the database, a parameter here), the first \<open>limit\<close>
  of them, each with the computed column \<open>similarity\<close>. Rows at equal distance stay in
  table order.
\<close>

definition candidates :: "nat \<Rightarrow> row list \<Rightarrow> (row \<times> real list) list" where
  "candidates dimension table =
     List.map_filter (\<lambda>r. map_option (Pair r) (embeddingField dimension r)) table"

definition knn_query ::
  "nat \<Rightarrow> (real list \<Rightarrow> real list \<Rightarrow> real) \<Rightarrow> real list \<Rightarrow> nat \<Rightarrow> row list
   \<Rightarrow> (row \<times> real) list" where
  "knn_query dimension distance q limit table =
     map (\<lambda>(r, v). (r, 1 - distance v q))
       (take limit (sort_key (\<lambda>(r, v). distance v q) (candidates dimension table)))"

text \<open>
  \<open>findSimilarChunks\<close>: a question vector of the wrong length is reported on the console
  and answered with the empty list; otherwise the query runs and its rows are returned
  without the computed column.
\<close>

definition findSimilarChunks ::
  "nat \<Rightarrow> (real list \<Rightarrow> real list \<Rightarrow> real) \<Rightarrow> env \<Rightarrow> real list \<Rightarrow> nat \<Rightarrow> world
   \<Rightarrow> (error + row list) \<times> world" where
  "findSimilarChunks dimension distance env questionEmbedding limit w =
     (if length questionEmbedding \<noteq> dimension then (Inr [], emit InvalidEmbedding w)
      else
        case db_call env DbQuery w of
          (True, w') \<Rightarrow>
            (Inr (map fst (knn_query dimension distance questionEmbedding limit (rows w'))), w')
        | (False, w') \<Rightarrow> (Inl StoreUnavailable, w'))"

text \<open>
  Modelled from the spec: the distance operator \<open><=>\<close> belongs to the vector extension
  of the database, which is not part of the repository. The spec defines the cosine
  distance of \<open>a\<close> and \<open>b\<close> as \<open>1 - (a \<cdot> b) / (|a| |b|)\<close>. It says nothing about
  a vector of norm zero; the quotient is then \<open>0\<close> here, and no statement below relies
  on that case.
\<close>

definition dot :: "real list \<Rightarrow> real list \<Rightarrow> real" where
  "dot a b = sum_list (map2 (*) a b)"

definition cosineDistance :: "real list \<Rightarrow> real list \<Rightarrow> real" where
  "cosineDistance a b = 1 - dot a b / (sqrt (dot a a) * sqrt (dot b b))"


section \<open>Ingestion\<close>

text \<open>The embedding loop that each of the three parts of \<open>loadAllData\<close> runs.\<close>

fun getEmbeddings ::
  "nat \<Rightarrow> env \<Rightarrow> jsstring list \<Rightarrow> world \<Rightarrow> (error + real list list) \<times> world" where
  "getEmbeddings dimension env [] w = (Inr [], w)"
| "getEmbeddings dimension env (c # cs) w =
     (case getEmbedding dimension env c w of
        (Inl e, w') \<Rightarrow> (Inl e, w')
      | (Inr embedding, w') \<Rightarrow>
          (case getEmbeddings dimension env cs w' of
             (Inl e, w'') \<Rightarrow> (Inl e, w'')
           | (Inr embeddings, w'') \<Rightarrow> (Inr (embedding # embeddings), w'')))"

text \<open>Embedding all chunks and then storing them, the common end of the three parts.\<close>

definition embedAndStore ::
  "nat \<Rightarrow> env \<Rightarrow> jsstring \<Rightarrow> jsstring \<Rightarrow> jsstring list \<Rightarrow> world \<Rightarrow> (error + unit) \<times> world"
  where
  "embedAndStore dimension env src sid chunks w =
     (case getEmbeddings dimension env chunks w of
        (Inl e, w') \<Rightarrow> (Inl e, w')
      | (Inr embeddings, w') \<Rightarrow> storeChunks dimension env src sid chunks embeddings w')"



text \<open>The path of a PDF, relative to the directory of the module.\<close>

definition pdfPath :: "jsstring \<Rightarrow> jsstring" where
  "pdfPath pdfFile = js ''../knowledge_pdfs/'' @ pdfFile"

text \<open>
  The bodies of the three loops of \<open>loadAllData\<close>. A body that ends normally, by
  \<open>continue\<close> or at its end, returns \<open>Inr ()\<close>; a body that throws returns the error.
\<close>

definition loadAllData_pdf ::
  "nat \<Rightarrow> env \<Rightarrow> jsstring \<Rightarrow> world \<Rightarrow> ((error + unit) \<times> world) option" where
  "loadAllData_pdf dimension env pdfFile w =
     (case sourceExists env (js ''pdf'') pdfFile w of
        (Inl e, w1) \<Rightarrow> Some (Inl e, w1)
      | (Inr True, w1) \<Rightarrow> Some (Inr (), w1)
      | (Inr False, w1) \<Rightarrow>
          (case loadPDF env (pdfPath pdfFile) w1 of
             (Inl e, w2) \<Rightarrow> Some (Inl e, w2)
           | (Inr text, w2) \<Rightarrow>
               (case chunkText text 400 of
                  None \<Rightarrow> None
                | Some chunks \<Rightarrow> Some (embedAndStore dimension env (js ''pdf'') pdfFile chunks w2))))"

definition loadAllData_article ::
  "nat \<Rightarrow> env \<Rightarrow> jsstring \<Rightarrow> world \<Rightarrow> ((error + unit) \<times> world) option" where
  "loadAllData_article dimension env articleId w =
     (case sourceExists env (js ''article'') articleId w of
        (Inl e, w1) \<Rightarrow> Some (Inl e, w1)
      | (Inr True, w1) \<Rightarrow> Some (Inr (), w1)
      | (Inr False, w1) \<Rightarrow>
          (case loadArticle env articleId w1 of
             (Inl e, w2) \<Rightarrow> Some (Inl e, w2)
           | (Inr text, w2) \<Rightarrow>
               (case chunkText text 400 of
                  None \<Rightarrow> None
                | Some chunks \<Rightarrow>
                    Some (embedAndStore dimension env (js ''article'') articleId chunks w2))))"

definition loadAllData_slack ::
  "nat \<Rightarrow> env \<Rightarrow> jsstring \<Rightarrow> world \<Rightarrow> ((error + unit) \<times> world) option" where
  "loadAllData_slack dimension env channel w =
     (case sourceExists env (js ''slack'') channel w of
        (Inl e, w1) \<Rightarrow> Some (Inl e, w1)
      | (Inr True, w1) \<Rightarrow> Some (Inr (), w1)
      | (Inr False, w1) \<Rightarrow>
          (case loadSlackChannel env channel w1 of
             None \<Rightarrow> None
           | Some (Inl e, w2) \<Rightarrow> Some (Inl e, w2)
           | Some (Inr msgs, w2) \<Rightarrow>
               if length msgs = 0 then Some (Inr (), w2)
               else
                 (case chunkText (join (js ''\<newline>'') msgs) 400 of
                    None \<Rightarrow> None
                  | Some chunks \<Rightarrow>
                      Some (embedAndStore dimension env (js ''slack'') channel chunks w2))))"



text \<open>
  The spec calls the body of these loops \<open>ingestSource\<close> and the list they run over the
  source list.
\<close>

datatype source_item = Pdf jsstring | Article jsstring | Slack jsstring

fun ingestSource ::
  "nat \<Rightarrow> env \<Rightarrow> source_item \<Rightarrow> world \<Rightarrow> ((error + unit) \<times> world) option" where
  "ingestSource dimension env (Pdf pdfFile) w = loadAllData_pdf dimension env pdfFile w"
| "ingestSource dimension env (Article articleId) w = loadAllData_article dimension env articleId w"
| "ingestSource dimension env (Slack channel) w = loadAllData_slack dimension env channel w"

fun item_source :: "source_item \<Rightarrow> jsstring" where
  "item_source (Pdf pdfFile) = js ''pdf''"
| "item_source (Article articleId) = js ''article''"
| "item_source (Slack channel) = js ''slack''"

fun item_id :: "source_item \<Rightarrow> jsstring" where
  "item_id (Pdf pdfFile) = pdfFile"
| "item_id (Article articleId) = articleId"
| "item_id (Slack channel) = channel"


section \<open>Answering\<close>

text \<open>A number in a template literal: its decimal digits.\<close>

fun decimal :: "nat \<Rightarrow> jsstring" where
  "decimal n =
     (if n < 10 then [word_of_nat (48 + n)]
      else decimal (n div 10) @ [word_of_nat (48 + n mod 10)])"

declare decimal.simps [simp del]

definition contextText :: "row list \<Rightarrow> jsstring" where
  "contextText similarChunks =
     join (js ''\<newline>\<newline>---\<newline>\<newline>'')
       (map (\<lambda>(chunk, index).
               js ''[Source '' @ decimal (index + 1) @ js '': '' @ source chunk @ js '' - ''
                 @ source_id chunk @ js '']\<newline>'' @ chunk_content chunk)
          (zip similarChunks [0..<length similarChunks]))"

definition prompt :: "row list \<Rightarrow> jsstring \<Rightarrow> jsstring" where
  "prompt similarChunks userQuestion =
     js ''You are a helpful assistant answering questions about Lev-Boots technology based on the provided knowledge base.\<newline>\<newline>Context from knowledge base:\<newline>''
     @ contextText similarChunks
     @ js ''\<newline>\<newline>User question: '' @ userQuestion
     @ js ''\<newline>\<newline>Instructions:\<newline>- Answer the question based ONLY on the information provided in the context above\<newline>- If the context doesn't contain enough information to answer the question, say so clearly\<newline>- Do not make up information or use knowledge outside of the provided context\<newline>- Be concise and accurate\<newline>- Cite the source when relevant (e.g., ''
     @ [0x22] @ js ''According to [source name]...'' @ [0x22] @ js '')\<newline>\<newline>Answer:''"

definition EMPTY_KNOWLEDGE_BASE :: jsstring where
  "EMPTY_KNOWLEDGE_BASE =
     js ''The knowledge base is empty. Please load data first by calling the /api/load_data endpoint.''"

definition NO_RELEVANT_INFORMATION :: jsstring where
  "NO_RELEVANT_INFORMATION =
     js ''I couldn't find any relevant information in the knowledge base to answer your question.''"

definition ask ::
  "nat \<Rightarrow> (real list \<Rightarrow> real list \<Rightarrow> real) \<Rightarrow> env \<Rightarrow> jsstring \<Rightarrow> world
   \<Rightarrow> (error + jsstring) \<times> world" where
  "ask dimension distance env userQuestion w =
     (case kb_count env w of
        (Inl e, w1) \<Rightarrow> (Inl e, w1)
      | (Inr totalChunks, w1) \<Rightarrow>
          if totalChunks = 0 then (Inr EMPTY_KNOWLEDGE_BASE, w1)
          else
            (case getEmbedding dimension env userQuestion w1 of
               (Inl e, w2) \<Rightarrow> (Inl e, w2)
             | (Inr questionEmbedding, w2) \<Rightarrow>
                 (case findSimilarChunks dimension distance env questionEmbedding 5 w2 of
                    (Inl e, w3) \<Rightarrow> (Inl e, w3)
                  | (Inr similarChunks, w3) \<Rightarrow>
                      if length similarChunks = 0 then (Inr NO_RELEVANT_INFORMATION, w3)
                      else
                        (generateContent env (prompt similarChunks userQuestion),
                         emit (GenerateContent (prompt similarChunks userQuestion)) w3))))"

section \<open>Example environments\<close>

text \<open>
  Rounding to single precision, the format in which a vector column of the database
  keeps its entries, for the numbers within the normal range of the format: the nearest
  number with 24 significant binary digits, and of two nearest ones the one with an even
  last digit.
\<close>

definition nearest_even :: "real \<Rightarrow> int" where
  "nearest_even m =
     (let f = \<lfloor>m\<rfloor>
      in if m - of_int f < 1 / 2 then f
         else if m - of_int f > 1 / 2 then f + 1
         else if even f then f else f + 1)"

definition binary32 :: "real \<Rightarrow> real" where
  "binary32 x =
     (if x = 0 then 0
      else
        let e = \<lfloor>log 2 \<bar>x\<bar>\<rfloor>
        in of_int (nearest_even (x / 2 powi (e - 23))) * 2 powi (e - 23))"

text \<open>
  Concrete collaborators and a small store, on which the statements below are run: a
  database that takes every statement and rounds as above, an embedding model that
  answers with a vector of two entries, and a store that holds one row of a PDF and one
  row of an article.
\<close>

definition demo_env :: env where
  "demo_env =
     \<lparr>db_up = (\<lambda>n. True), to_single = binary32, api_key = True,
      embedContent = (\<lambda>t. Inr (Some [1, 2])),
      readPdf = (\<lambda>p. Inr (js ''a'')),
      fetchArticle = (\<lambda>a. Status True (js ''a'')),
      slackPage = (\<lambda>c p. Throws),
      generateContent = (\<lambda>p. Inr (js ''ok''))\<rparr>"

definition old_row :: "jsstring \<Rightarrow> jsstring \<Rightarrow> row" where
  "old_row src sid =
     \<lparr>source = src, source_id = sid, chunk_index = 0, chunk_content = js ''old'',
      embeddings_768 = None, embeddings_1536 = None\<rparr>"

definition demo_world :: world where
  "demo_world =
     \<lparr>rows = [old_row (js ''pdf'') (js ''d''), old_row (js ''article'') (js ''d'')],
      clock = 0, trace = []\<rparr>"


definition failing_env :: env where
  "failing_env =
     \<lparr>db_up = (\<lambda>n. False), to_single = binary32, api_key = True,
      embedContent = (\<lambda>t. Inl EmbeddingUnavailable),
      readPdf = (\<lambda>p. Inl SourceUnavailable),
      fetchArticle = (\<lambda>a. Throws),
      slackPage = (\<lambda>c p. Throws),
      generateContent = (\<lambda>p. Inl GenerationUnavailable)\<rparr>"

text \<open>
  The three vectors of the ranking example, each followed by 766 zeros to the configured
  length and in single precision, as the column holds them, in stored rows, together
  with a row that has no vector; and the question of the example, followed by zeros
  likewise.
\<close>

definition example_row :: "jsstring \<Rightarrow> real list option \<Rightarrow> row" where
  "example_row name vec =
     \<lparr>source = js ''pdf'', source_id = name, chunk_index = 0, chunk_content = name,
      embeddings_768 = vec, embeddings_1536 = None\<rparr>"

definition vector_A :: "real list" where
  "vector_A = map binary32 ([1, 0] @ replicate 766 0)"

definition vector_B :: "real list" where
  "vector_B = map binary32 ([0, 1] @ replicate 766 0)"

definition vector_C :: "real list" where
  "vector_C = map binary32 ([9 / 10, 1 / 10] @ replicate 766 0)"

definition vector_Q :: "real list" where
  "vector_Q = [1, 0] @ replicate 766 0"

definition row_A :: row where
  "row_A = example_row (js ''A'') (Some vector_A)"

definition row_B :: row where
  "row_B = example_row (js ''B'') (Some vector_B)"

definition row_C :: row where
  "row_C = example_row (js ''C'') (Some vector_C)"

definition row_N :: row where
  "row_N = example_row (js ''N'') None"

definition abc_world :: world where
  "abc_world = \<lparr>rows = [row_B, row_N, row_C, row_A], clock = 0, trace = []\<rparr>"

section \<open>Single precision on the example values\<close>

lemma binary32_0: "binary32 0 = 0"
  by (simp add: binary32_def)

lemma binary32_1: "binary32 1 = 1"
  by (simp add: binary32_def nearest_even_def power_int_def power_divide)

lemma binary32_2: "binary32 2 = 2"
  by (simp add: binary32_def nearest_even_def power_int_def power_divide)

lemma floor_log_9_10: "\<lfloor>log 2 (9 / 10 :: real)\<rfloor> = -1"
proof (rule floor_unique)
  show "of_int (- 1) \<le> log 2 (9 / 10 :: real)"
    by (simp add: le_log_iff powr_minus)
  show "log 2 (9 / 10 :: real) < of_int (- 1) + 1"
    by simp
qed

lemma floor_log_1_10: "\<lfloor>log 2 (1 / 10 :: real)\<rfloor> = -4"
proof (rule floor_unique)
  show "of_int (- 4) \<le> log 2 (1 / 10 :: real)"
    by (simp add: le_log_iff powr_minus)
  show "log 2 (1 / 10 :: real) < of_int (- 4) + 1"
    by (simp add: log_less_iff powr_minus)
qed

lemma binary32_9_10: "binary32 (9 / 10) = 7549747 / 8388608"
  by (simp add: binary32_def floor_log_9_10 nearest_even_def power_int_def power_divide Let_def)

lemma binary32_1_10: "binary32 (1 / 10) = 13421773 / 134217728"
  by (simp add: binary32_def floor_log_1_10 nearest_even_def power_int_def power_divide Let_def)

section \<open>Properties of the chunker\<close>

subsection \<open>The loop and its windows\<close>

lemma chunkText_loop_windows:
  "0 < n \<Longrightarrow> chunkText_loop ws n i acc = Some (acc @ concat (map piece (windows n (drop i ws))))"
proof (induction "length ws - i" arbitrary: i acc rule: less_induct)
  case less
  show ?case
  proof (cases "i < length ws")
    case False
    then show ?thesis
      by (subst chunkText_loop.simps) (simp add: windows.simps)
  next
    case True
    have step: "length ws - (i + n) < length ws - i"
      using True less.prems by arith
    have w: "windows n (drop i ws) = take n (drop i ws) # windows n (drop (i + n) ws)"
      using True less.prems by (subst windows.simps) (simp add: add.commute)
    show ?thesis
      using True less.hyps [OF step less.prems]
      by (subst chunkText_loop.simps) (simp add: w piece_def slice_list_def Let_def)
  qed
qed

lemma split_ws_free: "\<forall>c\<in>set s. \<not> is_ws c \<Longrightarrow> split_ws s = [s]"
proof -
  assume a: "\<forall>c\<in>set s. \<not> is_ws c"
  then have tw: "takeWhile (\<lambda>c. \<not> is_ws c) s = s"
    and dw: "dropWhile (\<lambda>c. \<not> is_ws c) s = []"
    by simp_all
  show ?thesis
    by (subst split_ws.simps) (simp add: tw dw)
qed

lemma split_ws_sep:
  assumes "\<forall>c\<in>set w. \<not> is_ws c" and "is_ws c"
  shows "split_ws (w @ c # r) = w # split_ws (dropWhile is_ws r)"
proof -
  have "takeWhile (\<lambda>c. \<not> is_ws c) (w @ c # r) = w"
    using assms by (simp add: takeWhile_append2)
  moreover have "dropWhile (\<lambda>c. \<not> is_ws c) (w @ c # r) = c # r"
    using assms by (simp add: dropWhile_append2)
  ultimately show ?thesis
    by (subst split_ws.simps) (simp only: Let_def list.case)
qed

lemma string_cases:
  obtains (free) "\<forall>c\<in>set s. \<not> is_ws c"
  | (sep) w c r where "s = w @ c # r" "\<forall>c\<in>set w. \<not> is_ws c" "is_ws c"
proof (cases "dropWhile (\<lambda>c. \<not> is_ws c) s")
  case Nil
  then have "\<forall>c\<in>set s. \<not> is_ws c"
    by (simp add: dropWhile_eq_Nil_conv)
  then show ?thesis by (rule free)
next
  case (Cons c r)
  have "s = takeWhile (\<lambda>c. \<not> is_ws c) s @ c # r"
    using Cons takeWhile_dropWhile_id [of "\<lambda>c. \<not> is_ws c" s] by simp
  moreover have "\<forall>c\<in>set (takeWhile (\<lambda>c. \<not> is_ws c) s). \<not> is_ws c"
    by (auto dest: set_takeWhileD)
  moreover have "is_ws c"
    using Cons hd_dropWhile [of "\<lambda>c. \<not> is_ws c" s] by auto
  ultimately show ?thesis by (rule sep)
qed

lemma split_ws_not_Nil: "split_ws s \<noteq> []"
  by (cases s rule: string_cases) (auto simp: split_ws_free split_ws_sep)

lemma split_ws_no_ws: "w \<in> set (split_ws s) \<Longrightarrow> c \<in> set w \<Longrightarrow> \<not> is_ws c"
proof (induction "length s" arbitrary: s rule: less_induct)
  case less
  show ?case
  proof (cases s rule: string_cases)
    case free
    with less.prems show ?thesis by (simp add: split_ws_free)
  next
    case (sep w' c' r)
    have "length (dropWhile is_ws r) < length s"
      using sep(1) length_dropWhile_le [of is_ws r] by simp
    from less.hyps [OF this] less.prems sep show ?thesis
      by (auto simp: split_ws_sep)
  qed
qed


lemma tokens_Nil: "tokens [] = []"
  by (simp add: tokens_def split_ws_free)

lemma tokens_dropWhile: "tokens (dropWhile is_ws s) = tokens s"
proof (cases s)
  case Nil
  then show ?thesis by simp
next
  case (Cons c r)
  show ?thesis
  proof (cases "is_ws c")
    case True
    then have "split_ws ([] @ c # r) = [] # split_ws (dropWhile is_ws r)"
      by (intro split_ws_sep) simp_all
    with True Cons show ?thesis by (simp add: tokens_def)
  next
    case False
    with Cons show ?thesis by simp
  qed
qed

lemma tokens_sep:
  assumes "\<forall>c\<in>set w. \<not> is_ws c" and "is_ws c"
  shows "tokens (w @ c # r) = filter (\<lambda>w. w \<noteq> []) [w] @ tokens r"
proof -
  have "tokens (w @ c # r) = filter (\<lambda>w. w \<noteq> []) [w] @ tokens (dropWhile is_ws r)"
    using assms by (simp add: tokens_def split_ws_sep)
  then show ?thesis by (simp only: tokens_dropWhile)
qed

lemma tokens_free: "\<forall>c\<in>set w. \<not> is_ws c \<Longrightarrow> tokens w = filter (\<lambda>w. w \<noteq> []) [w]"
  by (simp add: tokens_def split_ws_free)

lemma tokens_append_ws:
  "\<forall>c\<in>set t. is_ws c \<Longrightarrow> tokens (s @ t) = tokens s"
proof (induction "length s" arbitrary: s rule: less_induct)
  case less
  show ?case
  proof (cases s rule: string_cases)
    case free
    show ?thesis
    proof (cases t)
      case Nil
      then show ?thesis by simp
    next
      case (Cons c t')
      have "is_ws c" and t': "\<forall>c\<in>set t'. is_ws c"
        using less.prems Cons by simp_all
      then have "tokens (s @ c # t') = filter (\<lambda>w. w \<noteq> []) [s] @ tokens t'"
        using free by (intro tokens_sep) simp_all
      moreover have "tokens t' = tokens (dropWhile is_ws t')"
        by (simp only: tokens_dropWhile)
      moreover have "dropWhile is_ws t' = []"
        using t' by simp
      ultimately show ?thesis
        using free Cons by (simp add: tokens_free tokens_Nil)
    qed
  next
    case (sep w c r)
    have "length r < length s"
      using sep(1) by simp
    from less.hyps [OF this less.prems] have "tokens (r @ t) = tokens r" .
    moreover have "tokens (w @ c # (r @ t)) = filter (\<lambda>w. w \<noteq> []) [w] @ tokens (r @ t)"
      using sep by (intro tokens_sep) simp_all
    moreover have "tokens (w @ c # r) = filter (\<lambda>w. w \<noteq> []) [w] @ tokens r"
      using sep by (intro tokens_sep) simp_all
    ultimately show ?thesis
      using sep(1) by simp
  qed
qed

lemma trim_decomp:
  "\<exists>t. dropWhile is_ws s = trim s @ t \<and> (\<forall>c\<in>set t. is_ws c)"
proof -
  let ?s = "dropWhile is_ws s"
  have "rev (dropWhile is_ws (rev ?s)) @ rev (takeWhile is_ws (rev ?s)) =
      rev (takeWhile is_ws (rev ?s) @ dropWhile is_ws (rev ?s))"
    by (simp only: rev_append)
  also have "\<dots> = ?s"
    by simp
  finally have "?s = trim s @ rev (takeWhile is_ws (rev ?s))"
    by (simp only: trim_def)
  moreover have "\<forall>c\<in>set (rev (takeWhile is_ws (rev ?s))). is_ws c"
    by (auto dest: set_takeWhileD)
  ultimately show ?thesis by blast
qed

lemma tokens_trim: "tokens (trim s) = tokens s"
proof -
  obtain t where t: "dropWhile is_ws s = trim s @ t" "\<forall>c\<in>set t. is_ws c"
    using trim_decomp by blast
  have "tokens s = tokens (trim s @ t)"
    using t(1) tokens_dropWhile [of s] by simp
  with t(2) show ?thesis
    by (simp add: tokens_append_ws)
qed

lemma tokens_join:
  "\<forall>w\<in>set ws. \<forall>c\<in>set w. \<not> is_ws c \<Longrightarrow>
   tokens (join (js '' '') ws) = filter (\<lambda>w. w \<noteq> []) ws"
proof (induction "js '' ''" ws rule: join.induct)
  case 1
  then show ?case by (simp add: tokens_Nil)
next
  case (2 x)
  then show ?case by (simp add: tokens_free)
next
  case (3 x y ys)
  have sp: "js '' '' = [0x20]" by (simp add: js_def)
  have "is_ws 0x20" by (simp add: is_ws_def)
  moreover have "\<forall>c\<in>set x. \<not> is_ws c" using 3(2) by simp
  ultimately have "tokens (x @ 0x20 # join (js '' '') (y # ys)) =
      filter (\<lambda>w. w \<noteq> []) [x] @ tokens (join (js '' '') (y # ys))"
    by (intro tokens_sep) simp_all
  moreover have "tokens (join (js '' '') (y # ys)) = filter (\<lambda>w. w \<noteq> []) (y # ys)"
    using 3 by simp
  ultimately show ?case
    using sp by simp
qed

lemma trim_ends:
  assumes "trim s \<noteq> []"
  shows "\<not> is_ws (hd (trim s))" and "\<not> is_ws (last (trim s))"
proof -
  obtain t where t: "dropWhile is_ws s = trim s @ t"
    using trim_decomp by blast
  then have "hd (dropWhile is_ws s) = hd (trim s)" and "dropWhile is_ws s \<noteq> []"
    using assms by simp_all
  then show "\<not> is_ws (hd (trim s))"
    using hd_dropWhile [of is_ws s] by simp
  have "dropWhile is_ws (rev (dropWhile is_ws s)) \<noteq> []"
    using assms by (simp add: trim_def)
  then have "\<not> is_ws (hd (dropWhile is_ws (rev (dropWhile is_ws s))))"
    by (rule hd_dropWhile)
  then show "\<not> is_ws (last (trim s))"
    using assms by (simp add: trim_def last_rev)
qed

lemma split_ws_tokens:
  "s \<noteq> [] \<Longrightarrow> \<not> is_ws (hd s) \<Longrightarrow> \<not> is_ws (last s) \<Longrightarrow> split_ws s = tokens s"
proof (induction "length s" arbitrary: s rule: less_induct)
  case less
  show ?case
  proof (cases s rule: string_cases)
    case free
    with less.prems show ?thesis by (simp add: tokens_def split_ws_free)
  next
    case (sep w c r)
    let ?r = "dropWhile is_ws r"
    have w: "w \<noteq> []"
      using sep less.prems(2) by (cases w) auto
    have r: "r \<noteq> []" "\<not> is_ws (last r)"
      using sep less.prems(3) by (cases r; simp)+
    then have nz: "?r \<noteq> []"
      by (metis dropWhile_eq_Nil_conv last_in_set)
    then have hd: "\<not> is_ws (hd ?r)"
      by (rule hd_dropWhile)
    have "r = takeWhile is_ws r @ ?r" by simp
    then have "last r = last ?r"
      using nz by (metis last_appendR)
    with r have lst: "\<not> is_ws (last ?r)" by simp
    have "length ?r < length s"
      using sep(1) length_dropWhile_le [of is_ws r] by simp
    from less.hyps [OF this nz hd lst] have "split_ws ?r = tokens ?r" .
    then show ?thesis
      using sep w by (simp add: split_ws_sep tokens_def)
  qed
qed

lemma piece_split:
  assumes "\<forall>w\<in>set win. \<forall>c\<in>set w. \<not> is_ws c"
  shows "concat (map split_ws (piece win)) = filter (\<lambda>w. w \<noteq> []) win"
proof (cases "trim (join (js '' '') win) = []")
  case True
  have "tokens (trim (join (js '' '') win)) = filter (\<lambda>w. w \<noteq> []) win"
    using assms by (simp only: tokens_trim tokens_join)
  with True show ?thesis
    by (simp add: piece_def tokens_Nil)
next
  case False
  then have "split_ws (trim (join (js '' '') win)) = tokens (trim (join (js '' '') win))"
    by (intro split_ws_tokens trim_ends)
  also have "\<dots> = filter (\<lambda>w. w \<noteq> []) win"
    using assms by (simp only: tokens_trim tokens_join)
  finally show ?thesis
    using False by (simp add: piece_def)
qed

lemma windows_eq_Nil: "windows n xs = [] \<longleftrightarrow> n = 0 \<or> xs = []"
  by (subst windows.simps) simp

lemma concat_windows: "0 < n \<Longrightarrow> concat (windows n xs) = xs"
proof (induction n xs rule: windows.induct)
  case (1 n xs)
  then show ?case
    by (subst windows.simps) simp
qed

lemma windows_subset: "w \<in> set (windows n xs) \<Longrightarrow> set w \<subseteq> set xs"
proof (induction n xs rule: windows.induct)
  case (1 n xs)
  show ?case
  proof (cases "n = 0 \<or> xs = []")
    case True
    then have "windows n xs = []" by (simp only: windows_eq_Nil)
    with "1.prems" show ?thesis by simp
  next
    case False
    with "1.prems" have "w = take n xs \<or> w \<in> set (windows n (drop n xs))"
      by (subst (asm) windows.simps) simp
    then show ?thesis
    proof
      assume "w = take n xs"
      then show ?thesis by (auto dest: in_set_takeD)
    next
      assume "w \<in> set (windows n (drop n xs))"
      with "1.IH" False have "set w \<subseteq> set (drop n xs)" by simp
      then show ?thesis by (auto dest: in_set_dropD)
    qed
  qed
qed


lemma windows_butlast:
  "w \<in> set (butlast (windows n xs)) \<Longrightarrow> length w = n \<and> set w \<subseteq> set (butlast xs)"
proof (induction n xs rule: windows.induct)
  case (1 n xs)
  show ?case
  proof (cases "n = 0 \<or> xs = []")
    case True
    then have "windows n xs = []" by (simp only: windows_eq_Nil)
    with "1.prems" show ?thesis by simp
  next
    case False
    then have w: "windows n xs = take n xs # windows n (drop n xs)"
      by (subst windows.simps) simp
    show ?thesis
    proof (cases "drop n xs = []")
      case True
      then have "windows n (drop n xs) = []" by (simp add: windows_eq_Nil)
      with "1.prems" w show ?thesis by simp
    next
      case long: False
      then have len: "n < length xs" by simp
      have ne: "windows n (drop n xs) \<noteq> []"
        using False long by (simp add: windows_eq_Nil)
      with "1.prems" w have "w = take n xs \<or> w \<in> set (butlast (windows n (drop n xs)))"
        by simp
      then show ?thesis
      proof
        assume eq: "w = take n xs"
        have "take n xs = take n (butlast xs)"
          using len by (simp add: take_butlast)
        with eq len show ?thesis
          by (auto dest: in_set_takeD)
      next
        assume "w \<in> set (butlast (windows n (drop n xs)))"
        with "1.IH" False have "length w = n" "set w \<subseteq> set (butlast (drop n xs))"
          by simp_all
        moreover have "butlast (drop n xs) = drop n (butlast xs)"
          by (simp only: butlast_drop)
        ultimately show ?thesis
          by (auto dest: in_set_dropD)
      qed
    qed
  qed
qed

lemma windows_nth_length:
  "Suc j < length (windows n xs) \<Longrightarrow> length (windows n xs ! j) = n"
proof -
  assume a: "Suc j < length (windows n xs)"
  then have "windows n xs ! j = butlast (windows n xs) ! j" "j < length (butlast (windows n xs))"
    by (simp_all add: nth_butlast)
  then have "windows n xs ! j \<in> set (butlast (windows n xs))"
    by (metis nth_mem)
  then show ?thesis by (simp add: windows_butlast)
qed

lemma windows_last_length:
  "windows n xs \<noteq> [] \<Longrightarrow> 0 < length (last (windows n xs)) \<and> length (last (windows n xs)) \<le> n"
proof (induction n xs rule: windows.induct)
  case (1 n xs)
  then have ne: "\<not> (n = 0 \<or> xs = [])" by (simp add: windows_eq_Nil)
  then have w: "windows n xs = take n xs # windows n (drop n xs)"
    by (subst windows.simps) simp
  show ?case
  proof (cases "windows n (drop n xs) = []")
    case True
    with w ne show ?thesis by simp
  next
    case False
    with "1.IH" ne w show ?thesis by simp
  qed
qed

lemma concat_map_concat_map:
  "concat (map f (concat (map g xs))) = concat (map (\<lambda>x. concat (map f (g x))) xs)"
  by (induction xs) simp_all

lemma chunks_words:
  assumes "0 < n"
  shows "concat (map split_ws (concat (map piece (windows n (split_ws text))))) =
         filter (\<lambda>w. w \<noteq> []) (split_ws text)"
proof -
  have free: "\<forall>w\<in>set win. \<forall>c\<in>set w. \<not> is_ws c" if "win \<in> set (windows n (split_ws text))" for win
    using that windows_subset [of win n "split_ws text"] split_ws_no_ws by blast
  have "concat (map split_ws (concat (map piece (windows n (split_ws text))))) =
        concat (map (\<lambda>win. concat (map split_ws (piece win))) (windows n (split_ws text)))"
    by (rule concat_map_concat_map)
  also have "\<dots> = concat (map (filter (\<lambda>w. w \<noteq> [])) (windows n (split_ws text)))"
  proof -
    have "concat (map split_ws (piece win)) = filter (\<lambda>w. w \<noteq> []) win"
      if "win \<in> set (windows n (split_ws text))" for win
      by (rule piece_split) (rule free [OF that])
    then have "map (\<lambda>win. concat (map split_ws (piece win))) (windows n (split_ws text)) =
        map (filter (\<lambda>w. w \<noteq> [])) (windows n (split_ws text))"
      by simp
    then show ?thesis by (rule arg_cong)
  qed
  also have "\<dots> = filter (\<lambda>w. w \<noteq> []) (concat (windows n (split_ws text)))"
    by (simp add: filter_concat)
  finally show ?thesis
    using assms by (simp add: concat_windows)
qed

lemma chunkText_windows:
  "0 < n \<Longrightarrow> chunkText text n = Some (concat (map piece (windows n (split_ws text))))"
  by (simp add: chunkText_def chunkText_loop_windows)

lemma split_ws_butlast_nonempty:
  "s = [] \<or> \<not> is_ws (hd s) \<Longrightarrow> [] \<notin> set (butlast (split_ws s))"
proof (induction "length s" arbitrary: s rule: less_induct)
  case less
  show ?case
  proof (cases s rule: string_cases)
    case free
    then show ?thesis by (simp add: split_ws_free)
  next
    case (sep w c r)
    let ?r = "dropWhile is_ws r"
    have w: "w \<noteq> []"
      using sep less.prems by (cases w) auto
    have "?r = [] \<or> \<not> is_ws (hd ?r)"
      using hd_dropWhile [of is_ws r] by blast
    moreover have "length ?r < length s"
      using sep(1) length_dropWhile_le [of is_ws r] by simp
    ultimately have "[] \<notin> set (butlast (split_ws ?r))"
      using less.hyps by blast
    then show ?thesis
      using sep w by (simp add: split_ws_sep split_ws_not_Nil)
  qed
qed

lemma piece_full:
  assumes "\<forall>w\<in>set win. w \<noteq> [] \<and> (\<forall>c\<in>set w. \<not> is_ws c)" and "win \<noteq> []"
  shows "\<exists>c. piece win = [c] \<and> split_ws c = win"
proof -
  have "concat (map split_ws (piece win)) = filter (\<lambda>w. w \<noteq> []) win"
    using assms(1) by (intro piece_split) blast
  also have "\<dots> = win"
    using assms(1) by (simp add: filter_id_conv)
  finally have *: "concat (map split_ws (piece win)) = win" .
  show ?thesis
  proof (cases "length (trim (join (js '' '') win)) > 0")
    case True
    with * show ?thesis by (simp add: piece_def)
  next
    case False
    with * assms(2) show ?thesis by (simp add: piece_def)
  qed
qed

lemma length_piece: "length (piece win) \<le> 1"
  by (simp add: piece_def Let_def)

lemma pieces_full:
  "\<forall>win\<in>set wins. \<exists>c. piece win = [c] \<and> length (split_ws c) = n \<Longrightarrow>
   \<forall>c\<in>set (concat (map piece wins)). length (split_ws c) = n"
  by (induction wins) auto

lemma chunks_full:
  assumes "0 < n" and "text = [] \<or> \<not> is_ws (hd text)"
    and "Suc j < length (concat (map piece (windows n (split_ws text))))"
  shows "length (split_ws (concat (map piece (windows n (split_ws text))) ! j)) = n"
proof -
  let ?W = "windows n (split_ws text)"
  have ne: "?W \<noteq> []"
    using assms(1) by (simp add: windows_eq_Nil split_ws_not_Nil)
  have full: "\<exists>c. piece win = [c] \<and> length (split_ws c) = n" if "win \<in> set (butlast ?W)" for win
  proof -
    from that have len: "length win = n" and sub: "set win \<subseteq> set (butlast (split_ws text))"
      by (simp_all add: windows_butlast)
    have "\<forall>w\<in>set win. w \<noteq> [] \<and> (\<forall>c\<in>set w. \<not> is_ws c)"
      using sub split_ws_butlast_nonempty [OF assms(2)] split_ws_no_ws
      by (metis in_set_butlastD subsetD)
    moreover have "win \<noteq> []"
      using len assms(1) by auto
    ultimately obtain c where "piece win = [c]" "split_ws c = win"
      using piece_full by blast
    with len show ?thesis by simp
  qed
  let ?A = "concat (map piece (butlast ?W))"
  have A: "\<forall>c\<in>set ?A. length (split_ws c) = n"
    using full by (intro pieces_full) blast
  have "?W = butlast ?W @ [last ?W]"
    using ne by simp
  then have "concat (map piece ?W) = concat (map piece (butlast ?W @ [last ?W]))"
    by (rule arg_cong)
  then have split: "concat (map piece ?W) = ?A @ piece (last ?W)"
    by simp
  have j: "j < length ?A"
    using assms(3) length_piece [of "last ?W"] unfolding split by simp
  then have "concat (map piece ?W) ! j = ?A ! j"
    unfolding split by (simp add: nth_append)
  moreover have "?A ! j \<in> set ?A"
    using j by (rule nth_mem)
  ultimately show ?thesis
    using A by metis
qed

subsection \<open>The words of the chunks\<close>

lemma tokens_append_sep: "is_ws c \<Longrightarrow> tokens (x @ c # y) = tokens x @ tokens y"
proof (induction "length x" arbitrary: x rule: less_induct)
  case less
  show ?case
  proof (cases x rule: string_cases)
    case free
    with less.prems have "tokens (x @ c # y) = filter (\<lambda>w. w \<noteq> []) [x] @ tokens y"
      by (intro tokens_sep) simp_all
    with free show ?thesis
      by (simp only: tokens_free)
  next
    case (sep w c' r)
    have "length r < length x"
      using sep(1) by simp
    from less.hyps [OF this less.prems] have "tokens (r @ c # y) = tokens r @ tokens y" .
    moreover have "tokens (w @ c' # (r @ c # y)) =
        filter (\<lambda>w. w \<noteq> []) [w] @ tokens (r @ c # y)"
      using sep by (intro tokens_sep) simp_all
    moreover have "tokens (w @ c' # r) = filter (\<lambda>w. w \<noteq> []) [w] @ tokens r"
      using sep by (intro tokens_sep) simp_all
    ultimately show ?thesis
      using sep(1) by simp
  qed
qed

lemma tokens_join_strings: "tokens (join (js '' '') xs) = concat (map tokens xs)"
proof (induction "js '' ''" xs rule: join.induct)
  case 1
  then show ?case by (simp add: tokens_Nil)
next
  case (2 x)
  then show ?case by simp
next
  case (3 x y ys)
  have sp: "js '' '' = [0x20]" by (simp add: js_def)
  have "is_ws 0x20" by (simp add: is_ws_def)
  then have "tokens (x @ 0x20 # join (js '' '') (y # ys)) =
      tokens x @ tokens (join (js '' '') (y # ys))"
    by (rule tokens_append_sep)
  with 3 sp show ?case by simp
qed

lemma concat_map_filter:
  "concat (map (\<lambda>x. filter P (f x)) xs) = filter P (concat (map f xs))"
  by (induction xs) simp_all

text \<open>
  Claim C4: for every text and every positive window size \<open>chunkText\<close> returns, and the
  words of the chunks, taken chunk after chunk, are exactly the words of the text, in
  order. The words of a string are the non-empty pieces of its split on whitespace
  (\<open>tokens\<close>); the split of a chunk has no empty piece at all. The same words come out
  of the chunks put together into one string with a space between them.
\<close>

theorem chunkText_words:
  assumes "0 < n"
  shows "\<exists>chunks. chunkText text n = Some chunks \<and>
           concat (map tokens chunks) = tokens text \<and>
           concat (map split_ws chunks) = tokens text \<and>
           tokens (join (js '' '') chunks) = tokens text"
proof -
  let ?chunks = "concat (map piece (windows n (split_ws text)))"
  have a: "chunkText text n = Some ?chunks"
    using assms by (rule chunkText_windows)
  have "concat (map split_ws ?chunks) = filter (\<lambda>w. w \<noteq> []) (split_ws text)"
    using assms by (rule chunks_words)
  then have b: "concat (map split_ws ?chunks) = tokens text"
    by (simp only: tokens_def)
  have "concat (map tokens ?chunks) =
      concat (map (\<lambda>c. filter (\<lambda>w. w \<noteq> []) (split_ws c)) ?chunks)"
    by (simp only: tokens_def [abs_def])
  also have "\<dots> = filter (\<lambda>w. w \<noteq> []) (concat (map split_ws ?chunks))"
    by (rule concat_map_filter)
  also have "\<dots> = filter (\<lambda>w. w \<noteq> []) (tokens text)"
    by (simp only: b)
  also have "\<dots> = tokens text"
    by (simp add: tokens_def)
  finally have c: "concat (map tokens ?chunks) = tokens text" .
  have d: "tokens (join (js '' '') ?chunks) = tokens text"
    by (simp only: tokens_join_strings c)
  from a b c d show ?thesis by blast
qed

theorem chunkText_words_witness:
  "0 < (2::nat) \<and>
   chunkText (js '' a  b c '') 2 = Some [js ''a'', js ''b c''] \<and>
   split_ws (js '' a  b c '') = [[], js ''a'', js ''b'', js ''c'', []] \<and>
   tokens (js '' a  b c '') = [js ''a'', js ''b'', js ''c''] \<and>
   concat (map tokens [js ''a'', js ''b c'']) = tokens (js '' a  b c '') \<and>
   concat (map split_ws [js ''a'', js ''b c'']) = tokens (js '' a  b c '') \<and>
   tokens (join (js '' '') [js ''a'', js ''b c'']) = tokens (js '' a  b c '')"
proof -
  have n: "0 < (2::nat)" by simp
  have "concat (map piece (windows 2 (split_ws (js '' a  b c '')))) = [js ''a'', js ''b c'']"
    by code_simp
  then have c: "chunkText (js '' a  b c '') 2 = Some [js ''a'', js ''b c'']"
    by (simp add: chunkText_windows)
  have s: "split_ws (js '' a  b c '') = [[], js ''a'', js ''b'', js ''c'', []]"
    by code_simp
  have t: "tokens (js '' a  b c '') = [js ''a'', js ''b'', js ''c'']"
    by code_simp
  from chunkText_words [OF n, of "js '' a  b c ''"] c s t n show ?thesis
    by simp
qed

subsection \<open>The size of the windows\<close>

text \<open>
  Claim C7 says that every chunk but the last holds exactly \<open>windowSize\<close> words. The
  windows are cut from the split of the text, and the empty piece that leading whitespace
  leaves counts as an entry of the first window. As amended: for every text and every
  positive window size, the chunks are the windows of the split of the text, each joined
  by single spaces and trimmed, the empty ones dropped; the windows in order make up the
  split, every window but the last has exactly \<open>windowSize\<close> entries and the last has
  between one and \<open>windowSize\<close>; and when the text does not begin with whitespace,
  every chunk but the last holds exactly \<open>windowSize\<close> words.
\<close>

theorem chunkText_window_sizes:
  assumes "0 < n"
  shows "chunkText text n = Some (concat (map piece (windows n (split_ws text)))) \<and>
         concat (windows n (split_ws text)) = split_ws text \<and>
         (\<forall>j. Suc j < length (windows n (split_ws text)) \<longrightarrow>
              length (windows n (split_ws text) ! j) = n) \<and>
         0 < length (last (windows n (split_ws text))) \<and>
         length (last (windows n (split_ws text))) \<le> n \<and>
         (text = [] \<or> \<not> is_ws (hd text) \<longrightarrow>
            (\<forall>chunks j. chunkText text n = Some chunks \<and> Suc j < length chunks \<longrightarrow>
               length (split_ws (chunks ! j)) = n))"
proof -
  have ne: "windows n (split_ws text) \<noteq> []"
    using assms by (simp add: windows_eq_Nil split_ws_not_Nil)
  have c: "chunkText text n = Some (concat (map piece (windows n (split_ws text))))"
    using assms by (rule chunkText_windows)
  have "\<forall>chunks j. chunkText text n = Some chunks \<and> Suc j < length chunks \<longrightarrow>
               length (split_ws (chunks ! j)) = n"
    if "text = [] \<or> \<not> is_ws (hd text)"
    using chunks_full [OF assms that] c by simp
  then show ?thesis
    using assms c ne concat_windows [of n "split_ws text"] windows_nth_length [of _ n "split_ws text"]
      windows_last_length [of n "split_ws text"]
    by blast
qed

text \<open>With leading whitespace and a window of two, the first of two chunks holds one word.\<close>

theorem chunkText_window_sizes_counterexample:
  "chunkText (js '' a b c'') 2 = Some [js ''a'', js ''b c''] \<and>
   Suc 0 < length [js ''a'', js ''b c''] \<and>
   length (split_ws ([js ''a'', js ''b c''] ! 0)) = 1"
proof -
  have "concat (map piece (windows 2 (split_ws (js '' a b c'')))) = [js ''a'', js ''b c'']"
    by code_simp
  then have "chunkText (js '' a b c'') 2 = Some [js ''a'', js ''b c'']"
    by (simp add: chunkText_windows)
  moreover have "split_ws (js ''a'') = [js ''a'']"
    by code_simp
  ultimately show ?thesis by simp
qed

theorem chunkText_window_sizes_witness:
  "0 < (2::nat) \<and> \<not> is_ws (hd (js ''a b c'')) \<and>
   chunkText (js ''a b c'') 2 = Some [js ''a b'', js ''c''] \<and>
   Suc 0 < length [js ''a b'', js ''c''] \<and>
   length (split_ws ([js ''a b'', js ''c''] ! 0)) = 2 \<and>
   Suc 0 < length (windows 2 (split_ws (js ''a b c''))) \<and>
   length (windows 2 (split_ws (js ''a b c'')) ! 0) = 2"
proof -
  have n: "0 < (2::nat)" by simp
  have t: "\<not> is_ws (hd (js ''a b c''))"
    by (simp add: js_def is_ws_def)
  have c: "concat (map piece (windows 2 (split_ws (js ''a b c'')))) = [js ''a b'', js ''c'']"
    by code_simp
  have l: "Suc 0 < length (windows 2 (split_ws (js ''a b c'')))"
    by code_simp
  note inst = chunkText_window_sizes [OF n, of "js ''a b c''"]
  from inst c have ch: "chunkText (js ''a b c'') 2 = Some [js ''a b'', js ''c'']"
    by simp
  from inst t ch have "Suc 0 < length [js ''a b'', js ''c''] \<longrightarrow>
      length (split_ws ([js ''a b'', js ''c''] ! 0)) = 2"
    by blast
  moreover from inst l have "length (windows 2 (split_ws (js ''a b c'')) ! 0) = 2"
    by blast
  ultimately show ?thesis
    using n t ch l by simp
qed

section \<open>Properties of the knowledge store\<close>

subsection \<open>Single statements and the insertion loop\<close>

lemma kb_insert_up:
  "db_up env (clock w) \<Longrightarrow> length vec = d \<Longrightarrow>
   \<exists>w'. kb_insert d env src sid i c vec w = (Inr (), w') \<and>
        rows w' = rows w @ [new_row d src sid i c (map (to_single env) vec)] \<and>
        clock w' = clock w + 1 \<and> trace w' = trace w @ [DbInsert src sid i]"
  by (simp add: kb_insert_def db_call_def emit_def)

lemma kb_insert_fails:
  "\<not> db_up env (clock w) \<or> length vec \<noteq> d \<Longrightarrow>
   \<exists>w'. kb_insert d env src sid i c vec w =
          (Inl (if db_up env (clock w) then StatementRejected else StoreUnavailable), w') \<and>
        rows w' = rows w \<and> clock w' = clock w + 1 \<and>
        trace w' = trace w @ [DbInsert src sid i]"
  by (auto simp: kb_insert_def db_call_def emit_def)

lemma kb_insert_Inr:
  "kb_insert d env src sid i c vec w = (Inr u, w') \<Longrightarrow>
   db_up env (clock w) \<and> length vec = d \<and>
   rows w' = rows w @ [new_row d src sid i c (map (to_single env) vec)] \<and>
   clock w' = clock w + 1"
  by (auto simp: kb_insert_def db_call_def emit_def split: bool.splits if_splits)

lemma kb_destroy_up:
  "db_up env (clock w) \<Longrightarrow>
   \<exists>w'. kb_destroy env src sid w = (Inr (), w') \<and>
        rows w' = filter (\<lambda>r. \<not> matches src sid r) (rows w) \<and> clock w' = clock w + 1 \<and>
        trace w' = trace w @ [DbDestroy src sid]"
  by (simp add: kb_destroy_def db_call_def emit_def)

lemma kb_destroy_down:
  "\<not> db_up env (clock w) \<Longrightarrow>
   kb_destroy env src sid w =
     (Inl StoreUnavailable, emit (DbDestroy src sid) (w\<lparr>clock := clock w + 1\<rparr>))"
  by (simp add: kb_destroy_def db_call_def)

lemma kb_destroy_Inr:
  "kb_destroy env src sid w = (Inr u, w') \<Longrightarrow>
   db_up env (clock w) \<and> rows w' = filter (\<lambda>r. \<not> matches src sid r) (rows w) \<and>
   clock w' = clock w + 1"
  by (auto simp: kb_destroy_def db_call_def emit_def split: bool.splits)

lemma storeChunks_loop_Inr:
  "storeChunks_loop d env src sid cs embs k w = (Inr u, w') \<Longrightarrow>
   rows w' = rows w @
     map (\<lambda>j. new_row d src sid (k + j) (cs ! j) (map (to_single env) (embs ! (k + j))))
       [0..<length cs] \<and>
   (\<forall>j<length cs. k + j < length embs \<and> length (embs ! (k + j)) = d)"
proof (induction cs arbitrary: k w)
  case Nil
  then show ?case by simp
next
  case (Cons c cs)
  from Cons.prems have k: "k < length embs"
    by (simp split: if_splits)
  with Cons.prems obtain w1 u1 where
    ins: "kb_insert d env src sid k c (embs ! k) w = (Inr u1, w1)" and
    rest: "storeChunks_loop d env src sid cs embs (k + 1) w1 = (Inr u, w')"
    by (auto split: prod.splits sum.splits)
  from kb_insert_Inr [OF ins] have
    r1: "rows w1 = rows w @ [new_row d src sid k c (map (to_single env) (embs ! k))]" and
    l: "length (embs ! k) = d"
    by simp_all
  from Cons.IH [OF rest] have
    r: "rows w' = rows w1 @
         map (\<lambda>j. new_row d src sid (k + 1 + j) (cs ! j) (map (to_single env) (embs ! (k + 1 + j))))
           [0..<length cs]" and
    a: "\<forall>j<length cs. k + 1 + j < length embs \<and> length (embs ! (k + 1 + j)) = d"
    by simp_all
  have "\<forall>j<length (c # cs). k + j < length embs \<and> length (embs ! (k + j)) = d"
  proof (intro allI impI)
    fix j
    assume "j < length (c # cs)"
    then show "k + j < length embs \<and> length (embs ! (k + j)) = d"
      using k l a by (cases j) simp_all
  qed
  with r r1 show ?case
    by (simp add: map_upt_Suc del: upt_Suc)
qed

lemma storeChunks_loop_up:
  "\<forall>j<length cs. db_up env (clock w + j) \<Longrightarrow>
   \<forall>j<length cs. k + j < length embs \<and> length (embs ! (k + j)) = d \<Longrightarrow>
   \<exists>w'. storeChunks_loop d env src sid cs embs k w = (Inr (), w')"
proof (induction cs arbitrary: k w)
  case Nil
  then show ?case by simp
next
  case (Cons c cs)
  from Cons.prems(1) have "db_up env (clock w)" by force
  moreover from Cons.prems(2) have k: "k < length embs" "length (embs ! k) = d" by force+
  ultimately obtain w1 where
    ins: "kb_insert d env src sid k c (embs ! k) w = (Inr (), w1)" and
    c1: "clock w1 = clock w + 1"
    using kb_insert_up by blast
  have "\<forall>j<length cs. db_up env (clock w1 + j)"
    using Cons.prems(1) c1 by force
  moreover have "\<forall>j<length cs. (k + 1) + j < length embs \<and> length (embs ! ((k + 1) + j)) = d"
    using Cons.prems(2) by force
  ultimately obtain w' where "storeChunks_loop d env src sid cs embs (k + 1) w1 = (Inr (), w')"
    using Cons.IH by blast
  with ins k show ?case by simp
qed

lemma storeChunks_loop_fails:
  "\<forall>j<i. db_up env (clock w + j) \<and> k + j < length embs \<and> length (embs ! (k + j)) = d \<Longrightarrow>
   i < length cs \<Longrightarrow>
   length embs \<le> k + i \<or> \<not> db_up env (clock w + i) \<or> length (embs ! (k + i)) \<noteq> d \<Longrightarrow>
   \<exists>w'. storeChunks_loop d env src sid cs embs k w =
          (Inl (if length embs \<le> k + i then TypeError
                else if db_up env (clock w + i) then StatementRejected
                else StoreUnavailable), w') \<and>
        rows w' = rows w @
          map (\<lambda>j. new_row d src sid (k + j) (cs ! j) (map (to_single env) (embs ! (k + j))))
            [0..<i] \<and>
        trace w' = trace w @
          map (\<lambda>j. DbInsert src sid (k + j)) [0..<(if length embs \<le> k + i then i else Suc i)]"
proof (induction cs arbitrary: i k w)
  case Nil
  then show ?case by simp
next
  case (Cons c cs)
  show ?case
  proof (cases i)
    case 0
    show ?thesis
    proof (cases "length embs \<le> k")
      case True
      with 0 show ?thesis by simp
    next
      case False
      with Cons.prems(3) 0 have "\<not> db_up env (clock w) \<or> length (embs ! k) \<noteq> d" by simp
      from kb_insert_fails [OF this, of src sid k c] False 0 show ?thesis
        by auto
    qed
  next
    case (Suc i')
    from Cons.prems(1) Suc have "db_up env (clock w)" and k: "k < length embs"
      and "length (embs ! k) = d" by force+
    then obtain w1 where
      ins: "kb_insert d env src sid k c (embs ! k) w = (Inr (), w1)" and
      r1: "rows w1 = rows w @ [new_row d src sid k c (map (to_single env) (embs ! k))]" and
      c1: "clock w1 = clock w + 1" and
      t1: "trace w1 = trace w @ [DbInsert src sid k]"
      using kb_insert_up by blast
    have "\<forall>j<i'. db_up env (clock w1 + j) \<and> (k + 1) + j < length embs \<and>
        length (embs ! ((k + 1) + j)) = d"
      using Cons.prems(1) Suc c1 by force
    moreover have "i' < length cs"
      using Cons.prems(2) Suc by simp
    moreover have "length embs \<le> (k + 1) + i' \<or> \<not> db_up env (clock w1 + i') \<or>
        length (embs ! ((k + 1) + i')) \<noteq> d"
      using Cons.prems(3) Suc c1 by simp
    ultimately obtain w' where
      l: "storeChunks_loop d env src sid cs embs (k + 1) w1 =
          (Inl (if length embs \<le> (k + 1) + i' then TypeError
                else if db_up env (clock w1 + i') then StatementRejected
                else StoreUnavailable), w')" and
      r: "rows w' = rows w1 @
            map (\<lambda>j. new_row d src sid (k + 1 + j) (cs ! j)
                   (map (to_single env) (embs ! (k + 1 + j)))) [0..<i']" and
      t: "trace w' = trace w1 @
            map (\<lambda>j. DbInsert src sid (k + 1 + j))
              [0..<(if length embs \<le> (k + 1) + i' then i' else Suc i')]"
      using Cons.IH [of i' w1 "k + 1"] by blast
    from ins l r r1 t t1 c1 k Suc show ?thesis
      by (simp add: map_upt_Suc del: upt_Suc)
  qed
qed

lemma matches_new_row [simp]: "matches src sid (new_row d src sid i c v)"
  by (simp add: matches_def new_row_def)

lemma filter_matches_new_rows:
  "filter (matches src sid) (map (\<lambda>j. new_row d src sid (f j) (g j) (h j)) ns) =
   map (\<lambda>j. new_row d src sid (f j) (g j) (h j)) ns"
  "filter (\<lambda>r. \<not> matches src sid r) (map (\<lambda>j. new_row d src sid (f j) (g j) (h j)) ns) = []"
  by (induction ns) simp_all

lemma matches_eq: "matches src sid = (\<lambda>r. source r = src \<and> source_id r = sid)"
  by (rule ext) (simp add: matches_def)

subsection \<open>Replacing the chunks of a source\<close>

text \<open>
  Claim C5: after \<open>storeChunks\<close> has completed for a pair of source and source id,
  the rows stored for that pair are exactly the rows of the new list, in order: row \<open>i\<close>
  carries the pair, \<open>i\<close> as \<open>chunk_index\<close>, the text of chunk \<open>i\<close>, and vector \<open>i\<close>, in
  single precision, in the column of the configured dimension, the other column being
  \<open>NULL\<close>. So none of the previous rows of the pair is left; the rows of every other
  pair are untouched. The call completes only if every chunk has a vector of the
  configured length, and it does complete when that holds and the database takes the
  delete and every insert.
\<close>

theorem storeChunks_replaces:
  "((\<forall>j\<le>length chunks. db_up env (clock w + j)) \<and>
    (\<forall>i<length chunks. i < length embeddings \<and> length (embeddings ! i) = d) \<longrightarrow>
      (\<exists>w'. storeChunks d env src sid chunks embeddings w = (Inr (), w'))) \<and>
   (\<forall>w'. storeChunks d env src sid chunks embeddings w = (Inr (), w') \<longrightarrow>
      filter (\<lambda>r. source r = src \<and> source_id r = sid) (rows w') =
        map (\<lambda>i. \<lparr>source = src, source_id = sid, chunk_index = i, chunk_content = chunks ! i,
                   embeddings_768 =
                     (if d = 768 then Some (map (to_single env) (embeddings ! i)) else None),
                   embeddings_1536 =
                     (if d = 768 then None else Some (map (to_single env) (embeddings ! i)))\<rparr>)
          [0..<length chunks] \<and>
      (\<forall>i<length chunks.
         chunk_index (filter (\<lambda>r. source r = src \<and> source_id r = sid) (rows w') ! i) = i \<and>
         i < length embeddings \<and> length (embeddings ! i) = d) \<and>
      filter (\<lambda>r. \<not> (source r = src \<and> source_id r = sid)) (rows w') =
        filter (\<lambda>r. \<not> (source r = src \<and> source_id r = sid)) (rows w))"
proof (intro conjI allI impI)
  assume a: "(\<forall>j\<le>length chunks. db_up env (clock w + j)) \<and>
    (\<forall>i<length chunks. i < length embeddings \<and> length (embeddings ! i) = d)"
  then have "db_up env (clock w)" by force
  then obtain w1 where
    d: "kb_destroy env src sid w = (Inr (), w1)" and c1: "clock w1 = clock w + 1"
    using kb_destroy_up by blast
  have "\<forall>j<length chunks. db_up env (clock w1 + j)"
  proof (intro allI impI)
    fix j
    assume "j < length chunks"
    then have "Suc j \<le> length chunks" by simp
    with a have "db_up env (clock w + Suc j)" by blast
    then show "db_up env (clock w1 + j)" by (simp add: c1)
  qed
  then obtain w' where "storeChunks_loop d env src sid chunks embeddings 0 w1 = (Inr (), w')"
    using a storeChunks_loop_up [where cs = chunks and env = env and w = w1 and k = 0
        and embs = embeddings and d = d and src = src and sid = sid]
    by auto
  with d show "\<exists>w'. storeChunks d env src sid chunks embeddings w = (Inr (), w')"
    by (simp add: storeChunks_def)
next
  fix w'
  assume s: "storeChunks d env src sid chunks embeddings w = (Inr (), w')"
  then obtain w1 u where
    d: "kb_destroy env src sid w = (Inr u, w1)" and
    l: "storeChunks_loop d env src sid chunks embeddings 0 w1 = (Inr (), w')"
    by (auto simp: storeChunks_def split: prod.splits sum.splits)
  from kb_destroy_Inr [OF d] have r1: "rows w1 = filter (\<lambda>r. \<not> matches src sid r) (rows w)"
    by simp
  from storeChunks_loop_Inr [OF l] r1 have r:
    "rows w' = filter (\<lambda>r. \<not> matches src sid r) (rows w) @
       map (\<lambda>i. new_row d src sid i (chunks ! i) (map (to_single env) (embeddings ! i)))
         [0..<length chunks]"
    and v: "\<forall>i<length chunks. i < length embeddings \<and> length (embeddings ! i) = d"
    by simp_all
  have "filter (matches src sid) (rows w') =
      map (\<lambda>i. new_row d src sid i (chunks ! i) (map (to_single env) (embeddings ! i)))
        [0..<length chunks]"
    unfolding r by (simp add: filter_matches_new_rows)
  then show m: "filter (\<lambda>r. source r = src \<and> source_id r = sid) (rows w') =
      map (\<lambda>i. \<lparr>source = src, source_id = sid, chunk_index = i, chunk_content = chunks ! i,
                 embeddings_768 =
                   (if d = 768 then Some (map (to_single env) (embeddings ! i)) else None),
                 embeddings_1536 =
                   (if d = 768 then None else Some (map (to_single env) (embeddings ! i)))\<rparr>)
        [0..<length chunks]"
    by (simp add: matches_eq new_row_def)
  have "filter (\<lambda>r. \<not> matches src sid r) (rows w') = filter (\<lambda>r. \<not> matches src sid r) (rows w)"
    unfolding r by (simp add: filter_matches_new_rows)
  then show "filter (\<lambda>r. \<not> (source r = src \<and> source_id r = sid)) (rows w') =
      filter (\<lambda>r. \<not> (source r = src \<and> source_id r = sid)) (rows w)"
    by (simp add: matches_eq)
  fix i
  assume i: "i < length chunks"
  then show "chunk_index (filter (\<lambda>r. source r = src \<and> source_id r = sid) (rows w') ! i) = i"
    unfolding m by simp
  from i v show "i < length embeddings" and "length (embeddings ! i) = d"
    by simp_all
qed

theorem storeChunks_replaces_witness:
  "db_up demo_env (clock demo_world + 0) \<and> db_up demo_env (clock demo_world + 1) \<and>
   db_up demo_env (clock demo_world + 2) \<and>
   length [js ''x'', js ''y''] = length [replicate 768 1, replicate 768 (2::real)] \<and>
   length (replicate 768 (1::real)) = 768 \<and> length (replicate 768 (2::real)) = 768 \<and>
   rows demo_world =
     [\<lparr>source = js ''pdf'', source_id = js ''d'', chunk_index = 0, chunk_content = js ''old'',
       embeddings_768 = None, embeddings_1536 = None\<rparr>,
      \<lparr>source = js ''article'', source_id = js ''d'', chunk_index = 0,
       chunk_content = js ''old'', embeddings_768 = None, embeddings_1536 = None\<rparr>] \<and>
   (\<exists>w'. storeChunks 768 demo_env (js ''pdf'') (js ''d'') [js ''x'', js ''y'']
            [replicate 768 1, replicate 768 2] demo_world = (Inr (), w') \<and>
         filter (\<lambda>r. source r = js ''pdf'' \<and> source_id r = js ''d'') (rows w') =
           [\<lparr>source = js ''pdf'', source_id = js ''d'', chunk_index = 0,
             chunk_content = js ''x'', embeddings_768 = Some (replicate 768 1),
             embeddings_1536 = None\<rparr>,
            \<lparr>source = js ''pdf'', source_id = js ''d'', chunk_index = 1,
             chunk_content = js ''y'', embeddings_768 = Some (replicate 768 2),
             embeddings_1536 = None\<rparr>] \<and>
         filter (\<lambda>r. \<not> (source r = js ''pdf'' \<and> source_id r = js ''d'')) (rows w') =
           [\<lparr>source = js ''article'', source_id = js ''d'', chunk_index = 0,
             chunk_content = js ''old'', embeddings_768 = None, embeddings_1536 = None\<rparr>])"
proof -
  let ?chunks = "[js ''x'', js ''y'']"
  let ?embeddings = "[replicate 768 1, replicate 768 (2::real)]"
  have h: "(\<forall>j\<le>length ?chunks. db_up demo_env (clock demo_world + j)) \<and>
      (\<forall>i<length ?chunks. i < length ?embeddings \<and> length (?embeddings ! i) = 768)"
    by (simp add: demo_env_def less_Suc_eq)
  have ne: "js ''pdf'' \<noteq> js ''article''"
    by (simp add: js_def)
  have o: "filter (\<lambda>r. \<not> (source r = js ''pdf'' \<and> source_id r = js ''d'')) (rows demo_world) =
      [\<lparr>source = js ''article'', source_id = js ''d'', chunk_index = 0,
        chunk_content = js ''old'', embeddings_768 = None, embeddings_1536 = None\<rparr>]"
    using ne by (simp add: demo_world_def old_row_def)
  have single: "to_single demo_env = binary32"
    by (simp add: demo_env_def)
  note inst = storeChunks_replaces [of ?chunks demo_env demo_world ?embeddings
      768 "js ''pdf''" "js ''d''"]
  from inst h obtain w' where
    s: "storeChunks 768 demo_env (js ''pdf'') (js ''d'') ?chunks ?embeddings demo_world
          = (Inr (), w')"
    by blast
  with inst have
    "filter (\<lambda>r. source r = js ''pdf'' \<and> source_id r = js ''d'') (rows w') =
       map (\<lambda>i. \<lparr>source = js ''pdf'', source_id = js ''d'', chunk_index = i,
                  chunk_content = ?chunks ! i,
                  embeddings_768 =
                    (if (768::nat) = 768 then Some (map (to_single demo_env) (?embeddings ! i))
                     else None),
                  embeddings_1536 =
                    (if (768::nat) = 768 then None
                     else Some (map (to_single demo_env) (?embeddings ! i)))\<rparr>)
         [0..<length ?chunks]"
    and "filter (\<lambda>r. \<not> (source r = js ''pdf'' \<and> source_id r = js ''d'')) (rows w') =
       filter (\<lambda>r. \<not> (source r = js ''pdf'' \<and> source_id r = js ''d'')) (rows demo_world)"
    by blast+
  then have
    "filter (\<lambda>r. source r = js ''pdf'' \<and> source_id r = js ''d'') (rows w') =
       [\<lparr>source = js ''pdf'', source_id = js ''d'', chunk_index = 0,
         chunk_content = js ''x'', embeddings_768 = Some (replicate 768 1),
         embeddings_1536 = None\<rparr>,
        \<lparr>source = js ''pdf'', source_id = js ''d'', chunk_index = 1,
         chunk_content = js ''y'', embeddings_768 = Some (replicate 768 2),
         embeddings_1536 = None\<rparr>]"
    and "filter (\<lambda>r. \<not> (source r = js ''pdf'' \<and> source_id r = js ''d'')) (rows w') =
       [\<lparr>source = js ''article'', source_id = js ''d'', chunk_index = 0,
         chunk_content = js ''old'', embeddings_768 = None, embeddings_1536 = None\<rparr>]"
    using o by (simp_all add: upt_rec single binary32_1 binary32_2)
  with s show ?thesis
    by (simp add: demo_world_def demo_env_def old_row_def)
qed

subsection \<open>A failing insert\<close>



lemma storeChunks_insert_fails:
  assumes "db_up env (clock w)"
    and "\<forall>j<i. db_up env (clock w + 1 + j) \<and> j < length embeddings \<and>
           length (embeddings ! j) = d"
    and "i < length chunks"
    and "length embeddings \<le> i \<or> \<not> db_up env (clock w + 1 + i) \<or>
         length (embeddings ! i) \<noteq> d"
  shows "\<exists>w'. storeChunks d env src sid chunks embeddings w =
             (Inl (if length embeddings \<le> i then TypeError
                   else if db_up env (clock w + 1 + i) then StatementRejected
                   else StoreUnavailable), w') \<and>
           trace w' = trace w @ DbDestroy src sid #
             map (DbInsert src sid) [0..<(if length embeddings \<le> i then i else Suc i)]"
proof -
  obtain w1 where
    d: "kb_destroy env src sid w = (Inr (), w1)" and
    c1: "clock w1 = clock w + 1" and
    t1: "trace w1 = trace w @ [DbDestroy src sid]"
    using kb_destroy_up [OF assms(1)] by blast
  have "\<forall>j<i. db_up env (clock w1 + j) \<and> 0 + j < length embeddings \<and>
      length (embeddings ! (0 + j)) = d"
    using assms(2) c1 by simp
  moreover have "length embeddings \<le> 0 + i \<or> \<not> db_up env (clock w1 + i) \<or>
      length (embeddings ! (0 + i)) \<noteq> d"
    using assms(4) c1 by simp
  ultimately obtain w' where
    l: "storeChunks_loop d env src sid chunks embeddings 0 w1 =
          (Inl (if length embeddings \<le> 0 + i then TypeError
                else if db_up env (clock w1 + i) then StatementRejected
                else StoreUnavailable), w')" and
    t: "trace w' = trace w1 @
          map (\<lambda>j. DbInsert src sid (0 + j))
            [0..<(if length embeddings \<le> 0 + i then i else Suc i)]"
    using storeChunks_loop_fails [of i env w1 0 embeddings d chunks src sid] assms(3) by blast
  from d l c1 have
    "storeChunks d env src sid chunks embeddings w =
      (Inl (if length embeddings \<le> i then TypeError
            else if db_up env (clock w + 1 + i) then StatementRejected
            else StoreUnavailable), w')"
    by (simp add: storeChunks_def)
  moreover from t t1 have "trace w' = trace w @ DbDestroy src sid #
      map (DbInsert src sid) [0..<(if length embeddings \<le> i then i else Suc i)]"
    by (simp del: upt_Suc)
  ultimately show ?thesis by blast
qed

section \<open>Properties of the embedding adapter\<close>

lemma getEmbedding_ok:
  assumes "api_key env" and "embedContent env text = Inr (Some raw)" and "raw \<noteq> []"
  shows "getEmbedding d env text w =
           (Inr (if d = 768
                 then (if length raw \<ge> 768 then take 768 raw else raw @ replicate (768 - length raw) 0)
                 else (if length raw \<ge> 1536 then take 1536 raw
                       else raw @ replicate (1536 - length raw) 0)),
            emit (EmbedContent text) w)"
  using assms by (simp add: getEmbedding_def)

lemma getEmbedding_length:
  "getEmbedding d env text w = (Inr v, w') \<Longrightarrow> length v = (if d = 768 then 768 else 1536)"
  by (auto simp: getEmbedding_def Let_def split: if_splits sum.splits option.splits)

lemma getEmbedding_trace:
  "getEmbedding d env text w = (r, w') \<Longrightarrow>
   rows w' = rows w \<and> clock w' = clock w \<and>
   (trace w' = trace w \<or> trace w' = trace w @ [EmbedContent text])"
  by (auto simp: getEmbedding_def Let_def emit_def split: if_splits sum.splits option.splits)

text \<open>
  Claim C3: for every response from which a non-empty array is extracted, \<open>getEmbedding\<close>
  returns a vector of length exactly \<open>D\<close>, the configured dimension
  \<open>EMBEDDING_DIMENSION\<close>: the first \<open>D\<close> entries of a longer array, a shorter array
  followed by zeros up to length \<open>D\<close>, an array of length \<open>D\<close> unchanged. The claim shows
  the rule on \<open>D = 4\<close>; the dimension of the program is the constant 768, and the
  examples below are the same ones at that length.
\<close>

theorem getEmbedding_dimension:
  assumes "api_key env" and "embedContent env text = Inr (Some raw)" and "raw \<noteq> []"
  shows "\<exists>v w'. getEmbedding EMBEDDING_DIMENSION env text w = (Inr v, w') \<and>
           length v = EMBEDDING_DIMENSION \<and>
           (length raw > EMBEDDING_DIMENSION \<longrightarrow> v = take EMBEDDING_DIMENSION raw) \<and>
           (length raw < EMBEDDING_DIMENSION \<longrightarrow>
              v = raw @ replicate (EMBEDDING_DIMENSION - length raw) 0) \<and>
           (length raw = EMBEDDING_DIMENSION \<longrightarrow> v = raw)"
  using getEmbedding_ok [OF assms, of EMBEDDING_DIMENSION w]
  by (auto simp: EMBEDDING_DIMENSION_def)

theorem getEmbedding_dimension_witness:
  "api_key demo_env \<and> embedContent demo_env (js ''q'') = Inr (Some [1, 2]) \<and>
   [1, 2 :: real] \<noteq> [] \<and> length [1, 2 :: real] < EMBEDDING_DIMENSION \<and>
   (\<exists>w'. getEmbedding EMBEDDING_DIMENSION demo_env (js ''q'') demo_world =
           (Inr ([1, 2] @ replicate 766 0), w')) \<and>
   map real [1..<771] \<noteq> [] \<and> length (map real [1..<771]) > EMBEDDING_DIMENSION \<and>
   (\<exists>w'. getEmbedding EMBEDDING_DIMENSION
            (demo_env\<lparr>embedContent := (\<lambda>t. Inr (Some (map real [1..<771])))\<rparr>)
            (js ''q'') demo_world =
           (Inr (map real [1..<769]), w')) \<and>
   replicate 768 (1::real) \<noteq> [] \<and> length (replicate 768 (1::real)) = EMBEDDING_DIMENSION \<and>
   (\<exists>w'. getEmbedding EMBEDDING_DIMENSION
            (demo_env\<lparr>embedContent := (\<lambda>t. Inr (Some (replicate 768 1)))\<rparr>)
            (js ''q'') demo_world =
           (Inr (replicate 768 1), w'))"
proof -
  let ?long = "demo_env\<lparr>embedContent := (\<lambda>t. Inr (Some (map real [1..<771])))\<rparr>"
  let ?exact = "demo_env\<lparr>embedContent := (\<lambda>t. Inr (Some (replicate 768 1)))\<rparr>"
  have h: "api_key demo_env" "embedContent demo_env (js ''q'') = Inr (Some [1, 2])"
    "[1, 2 :: real] \<noteq> []"
    by (simp_all add: demo_env_def)
  have l: "length [1, 2 :: real] < EMBEDDING_DIMENSION"
    by (simp add: EMBEDDING_DIMENSION_def)
  from getEmbedding_dimension [OF h, of demo_world] l obtain v w' where
    "getEmbedding EMBEDDING_DIMENSION demo_env (js ''q'') demo_world = (Inr v, w')"
    "v = [1, 2] @ replicate (EMBEDDING_DIMENSION - length [1, 2 :: real]) 0"
    by blast
  then have short: "\<exists>w'. getEmbedding EMBEDDING_DIMENSION demo_env (js ''q'') demo_world =
      (Inr ([1, 2] @ replicate 766 0), w')"
    by (simp add: EMBEDDING_DIMENSION_def)
  have h2: "api_key ?long" "embedContent ?long (js ''q'') = Inr (Some (map real [1..<771]))"
    "map real [1..<771] \<noteq> []"
    by (simp_all add: demo_env_def)
  have l2: "length (map real [1..<771]) > EMBEDDING_DIMENSION"
    by (simp add: EMBEDDING_DIMENSION_def)
  from getEmbedding_dimension [OF h2, of demo_world] l2 obtain v2 w2 where
    "getEmbedding EMBEDDING_DIMENSION ?long (js ''q'') demo_world = (Inr v2, w2)"
    "v2 = take EMBEDDING_DIMENSION (map real [1..<771])"
    by blast
  then have long: "\<exists>w'. getEmbedding EMBEDDING_DIMENSION ?long (js ''q'') demo_world =
      (Inr (map real [1..<769]), w')"
    by (simp add: EMBEDDING_DIMENSION_def take_map)
  have h3: "api_key ?exact" "embedContent ?exact (js ''q'') = Inr (Some (replicate 768 1))"
    "replicate 768 (1::real) \<noteq> []"
    by (simp_all add: demo_env_def)
  have l3: "length (replicate 768 (1::real)) = EMBEDDING_DIMENSION"
    by (simp add: EMBEDDING_DIMENSION_def)
  from getEmbedding_dimension [OF h3, of demo_world] l3 obtain v3 w3 where
    "getEmbedding EMBEDDING_DIMENSION ?exact (js ''q'') demo_world = (Inr v3, w3)"
    "v3 = replicate 768 1"
    by blast
  then have exact: "\<exists>w'. getEmbedding EMBEDDING_DIMENSION ?exact (js ''q'') demo_world =
      (Inr (replicate 768 1), w')"
    by blast
  from short long exact h h2(3) h3(3) l l2 l3 show ?thesis
    by simp
qed

section \<open>The guard of the similarity search\<close>

lemma kb_count_trace:
  "kb_count env w = (r, w') \<Longrightarrow> trace w' = trace w @ [DbCountAll]"
  by (auto simp: kb_count_def db_call_def emit_def split: bool.splits)

lemma findSimilarChunks_guard:
  "length q \<noteq> d \<Longrightarrow>
   findSimilarChunks d distance env q k w = (Inr [], emit InvalidEmbedding w)"
  by (simp add: findSimilarChunks_def)

lemma findSimilarChunks_trace:
  "findSimilarChunks d distance env q k w = (r, w') \<Longrightarrow> length q = d \<Longrightarrow>
   trace w' = trace w @ [DbQuery]"
  by (auto simp: findSimilarChunks_def db_call_def emit_def split: bool.splits)

lemma getEmbedding_facts:
  "getEmbedding d env text w = (r, w') \<Longrightarrow>
   (trace w' = trace w \<or> trace w' = trace w @ [EmbedContent text]) \<and>
   (\<forall>v. r = Inr v \<longrightarrow> length v = (if d = 768 then 768 else 1536))"
  using getEmbedding_trace getEmbedding_length by blast

lemma ask_no_guard:
  assumes "InvalidEmbedding \<notin> set (trace w)"
    and "ask EMBEDDING_DIMENSION distance env userQuestion w = (r, w')"
  shows "InvalidEmbedding \<notin> set (trace w')"
proof -
  obtain r1 w1 where c: "kb_count env w = (r1, w1)" by fastforce
  then have t1: "trace w1 = trace w @ [DbCountAll]" by (rule kb_count_trace)
  show ?thesis
  proof (cases r1)
    case (Inl e)
    with assms c t1 show ?thesis by (auto simp: ask_def)
  next
    case (Inr total)
    show ?thesis
    proof (cases "total = 0")
      case True
      with assms c t1 Inr show ?thesis by (auto simp: ask_def)
    next
      case False
      obtain r2 w2 where g: "getEmbedding EMBEDDING_DIMENSION env userQuestion w1 = (r2, w2)"
        by fastforce
      from getEmbedding_facts [OF g] have
        t2: "trace w2 = trace w1 \<or> trace w2 = trace w1 @ [EmbedContent userQuestion]" and
        len: "\<forall>v. r2 = Inr v \<longrightarrow> length v = EMBEDDING_DIMENSION"
        by (simp_all add: EMBEDDING_DIMENSION_def)
      show ?thesis
      proof (cases r2)
        case (Inl e)
        with assms c t1 \<open>r1 = Inr total\<close> False g t2 show ?thesis by (auto simp: ask_def)
      next
        case (Inr q)
        with len have lq: "length q = EMBEDDING_DIMENSION" by simp
        obtain r3 w3 where
          f: "findSimilarChunks EMBEDDING_DIMENSION distance env q 5 w2 = (r3, w3)"
          by fastforce
        from findSimilarChunks_trace [OF f lq] have t3: "trace w3 = trace w2 @ [DbQuery]" .
        from assms(2) c \<open>r1 = Inr total\<close> False g Inr f have
          "w' = w3 \<or> (\<exists>p. w' = emit (GenerateContent p) w3)"
          by (auto simp: ask_def split: sum.splits if_splits)
        with assms(1) t1 t2 t3 show ?thesis
          by (auto simp: emit_def)
      qed
    qed
  qed
qed

lemma ask_guard:
  assumes "kb_count env w = (Inr (Suc n), w1)"
    and "getEmbedding d env userQuestion w1 = (Inr q, w2)"
    and "length q \<noteq> d"
  shows "ask d distance env userQuestion w = (Inr NO_RELEVANT_INFORMATION, emit InvalidEmbedding w2)"
  using assms by (simp add: ask_def findSimilarChunks_guard)

text \<open>
  Claim C10: a question vector whose length differs from the dimension makes
  \<open>findSimilarChunks\<close> return the empty list instead of raising an error, and \<open>ask\<close>
  then answers that it found no relevant information. Under the configured dimension
  every vector that \<open>getEmbedding\<close> returns has length 768, which is that dimension,
  so no run of \<open>ask\<close> reaches the guard branch: the diagnostic of that branch never
  appears among the events of a run.
\<close>

theorem findSimilarChunks_length_guard:
  "(\<forall>q k w. length q \<noteq> d \<longrightarrow>
      findSimilarChunks d distance env q k w = (Inr [], emit InvalidEmbedding w)) \<and>
   (\<forall>w n w1 q w2.
      kb_count env w = (Inr (Suc n), w1) \<and> getEmbedding d env userQuestion w1 = (Inr q, w2) \<and>
      length q \<noteq> d \<longrightarrow>
      ask d distance env userQuestion w =
        (Inr NO_RELEVANT_INFORMATION, emit InvalidEmbedding w2)) \<and>
   (\<forall>t w v w'. getEmbedding EMBEDDING_DIMENSION env t w = (Inr v, w') \<longrightarrow>
      length v = 768 \<and> EMBEDDING_DIMENSION = 768) \<and>
   (\<forall>w r w'. InvalidEmbedding \<notin> set (trace w) \<and>
      ask EMBEDDING_DIMENSION distance env userQuestion w = (r, w') \<longrightarrow>
      InvalidEmbedding \<notin> set (trace w'))"
proof (intro conjI allI impI)
  fix q :: "real list" and k w
  assume "length q \<noteq> d"
  then show "findSimilarChunks d distance env q k w = (Inr [], emit InvalidEmbedding w)"
    by (rule findSimilarChunks_guard)
next
  fix w n w1 q w2
  assume "kb_count env w = (Inr (Suc n), w1) \<and>
    getEmbedding d env userQuestion w1 = (Inr q, w2) \<and> length q \<noteq> d"
  then show "ask d distance env userQuestion w =
      (Inr NO_RELEVANT_INFORMATION, emit InvalidEmbedding w2)"
    using ask_guard by blast
next
  fix t w v w'
  assume g: "getEmbedding EMBEDDING_DIMENSION env t w = (Inr v, w')"
  from getEmbedding_length [OF g] show "length v = 768"
    by (simp add: EMBEDDING_DIMENSION_def)
  show "EMBEDDING_DIMENSION = 768"
    by (simp add: EMBEDDING_DIMENSION_def)
next
  fix w r w'
  assume "InvalidEmbedding \<notin> set (trace w) \<and>
    ask EMBEDDING_DIMENSION distance env userQuestion w = (r, w')"
  then show "InvalidEmbedding \<notin> set (trace w')"
    using ask_no_guard by blast
qed

theorem findSimilarChunks_length_guard_witness:
  "length [1, 2 :: real] \<noteq> EMBEDDING_DIMENSION \<and>
   findSimilarChunks EMBEDDING_DIMENSION cosineDistance demo_env [1, 2] 5 demo_world =
     (Inr [], emit InvalidEmbedding demo_world) \<and>
   (\<exists>n w1 q w2.
      kb_count demo_env demo_world = (Inr (Suc n), w1) \<and>
      getEmbedding 4 demo_env (js ''q'') w1 = (Inr q, w2) \<and> length q \<noteq> 4 \<and>
      ask 4 cosineDistance demo_env (js ''q'') demo_world =
        (Inr NO_RELEVANT_INFORMATION, emit InvalidEmbedding w2)) \<and>
   (\<exists>v w'. getEmbedding EMBEDDING_DIMENSION demo_env (js ''q'') demo_world = (Inr v, w') \<and>
      length v = 768) \<and>
   InvalidEmbedding \<notin> set (trace demo_world) \<and>
   InvalidEmbedding \<notin>
     set (trace (snd (ask EMBEDDING_DIMENSION cosineDistance demo_env (js ''q'') demo_world)))"
proof -
  note a = findSimilarChunks_length_guard
    [of EMBEDDING_DIMENSION cosineDistance demo_env "js ''q''"]
  note b = findSimilarChunks_length_guard [of 4 cosineDistance demo_env "js ''q''"]
  have l: "length [1, 2 :: real] \<noteq> EMBEDDING_DIMENSION"
    by (simp add: EMBEDDING_DIMENSION_def)
  with a have 1: "findSimilarChunks EMBEDDING_DIMENSION cosineDistance demo_env [1, 2] 5 demo_world =
      (Inr [], emit InvalidEmbedding demo_world)"
    by blast
  obtain w1 where c: "kb_count demo_env demo_world = (Inr (Suc 1), w1)"
    by (simp add: kb_count_def db_call_def emit_def demo_env_def demo_world_def)
  obtain q w2 where g: "getEmbedding 4 demo_env (js ''q'') w1 = (Inr q, w2)"
    and lq: "length q \<noteq> 4"
    by (simp add: getEmbedding_def demo_env_def)
  from b c g lq have 2: "ask 4 cosineDistance demo_env (js ''q'') demo_world =
      (Inr NO_RELEVANT_INFORMATION, emit InvalidEmbedding w2)"
    by blast
  obtain v w' where
    e: "getEmbedding EMBEDDING_DIMENSION demo_env (js ''q'') demo_world = (Inr v, w')"
    by (simp add: getEmbedding_def demo_env_def EMBEDDING_DIMENSION_def)
  with a have 3: "length v = 768" by blast
  have t: "InvalidEmbedding \<notin> set (trace demo_world)"
    by (simp add: demo_world_def)
  have "ask EMBEDDING_DIMENSION cosineDistance demo_env (js ''q'') demo_world =
      (fst (ask EMBEDDING_DIMENSION cosineDistance demo_env (js ''q'') demo_world),
       snd (ask EMBEDDING_DIMENSION cosineDistance demo_env (js ''q'') demo_world))"
    by simp
  with a t have 4: "InvalidEmbedding \<notin>
      set (trace (snd (ask EMBEDDING_DIMENSION cosineDistance demo_env (js ''q'') demo_world)))"
    by blast
  from l 1 c g lq 2 e 3 t 4 show ?thesis by blast
qed

section \<open>Properties of the query\<close>

lemma map_fst_candidates:
  "map fst (candidates d table) = filter (\<lambda>r. embeddingField d r \<noteq> None) table"
  by (induction table) (auto simp: candidates_def map_filter_simps split: option.splits)

lemma set_candidates:
  "(r, v) \<in> set (candidates d table) \<longleftrightarrow> r \<in> set table \<and> embeddingField d r = Some v"
  by (induction table) (auto simp: candidates_def map_filter_simps split: option.splits)

lemma knn_query_eq:
  "knn_query d distance q k table =
     map (\<lambda>(r, v). (r, 1 - distance v q))
       (take k (sort_key (\<lambda>(r, v). distance v q) (candidates d table)))"
  by (simp add: knn_query_def)

lemma knn_query_props:
  fixes d distance q k table
  defines "S \<equiv> sort_key (\<lambda>(r, v). distance v q) (candidates d table)"
  defines "g \<equiv> (\<lambda>(r, v). (r, 1 - distance v q))"
  shows "knn_query d distance q k table @ map g (drop k S) = map g S"
    and "length (knn_query d distance q k table) =
           min k (length (filter (\<lambda>r. embeddingField d r \<noteq> None) table))"
    and "\<forall>(r, s)\<in>set (knn_query d distance q k table).
           r \<in> set table \<and> (\<exists>v. embeddingField d r = Some v \<and> s = 1 - distance v q)"
    and "sorted_wrt (\<lambda>a b. snd a \<ge> snd b) (map g S)"
    and "mset (map fst (map g S)) = mset (filter (\<lambda>r. embeddingField d r \<noteq> None) table)"
proof -
  have k: "knn_query d distance q k table = map g (take k S)"
    by (simp add: knn_query_eq S_def g_def)
  show "knn_query d distance q k table @ map g (drop k S) = map g S"
    unfolding k by (simp flip: map_append)
  have "length S = length (candidates d table)"
    by (simp add: S_def)
  also have "\<dots> = length (map fst (candidates d table))"
    by simp
  finally have len: "length S = length (filter (\<lambda>r. embeddingField d r \<noteq> None) table)"
    by (simp only: map_fst_candidates)
  show "length (knn_query d distance q k table) =
      min k (length (filter (\<lambda>r. embeddingField d r \<noteq> None) table))"
    unfolding k using len by (simp add: min.commute)
  have "set (take k S) \<subseteq> set (candidates d table)"
    using set_take_subset [of k S] by (simp add: S_def)
  then show "\<forall>(r, s)\<in>set (knn_query d distance q k table).
      r \<in> set table \<and> (\<exists>v. embeddingField d r = Some v \<and> s = 1 - distance v q)"
    unfolding k by (auto simp: g_def set_candidates)
  have "sorted (map (\<lambda>(r, v). distance v q) S)"
    by (simp add: S_def)
  then have "sorted_wrt (\<lambda>a b. (case a of (r, v) \<Rightarrow> distance v q) \<le> (case b of (r, v) \<Rightarrow> distance v q)) S"
    by (simp add: sorted_map)
  then have "sorted_wrt (\<lambda>a b. snd (g a) \<ge> snd (g b)) S"
    by (rule sorted_wrt_mono_rel [rotated]) (auto simp: g_def)
  then show "sorted_wrt (\<lambda>a b. snd a \<ge> snd b) (map g S)"
    by (simp add: sorted_wrt_map)
  have "map fst (map g S) = map fst S"
    by (auto simp: g_def)
  moreover have "mset (map fst S) = mset (map fst (candidates d table))"
    by (simp add: S_def)
  ultimately show "mset (map fst (map g S)) =
      mset (filter (\<lambda>r. embeddingField d r \<noteq> None) table)"
    by (simp only: map_fst_candidates)
qed

lemma findSimilarChunks_up:
  "length q = d \<Longrightarrow> db_up env (clock w) \<Longrightarrow>
   findSimilarChunks d distance env q k w =
     (Inr (map fst (knn_query d distance q k (rows w))), emit DbQuery (w\<lparr>clock := clock w + 1\<rparr>))"
  by (simp add: findSimilarChunks_def db_call_def emit_def)

section \<open>What happens to a failure\<close>

lemma sourceExists_down:
  "\<not> db_up env (clock w) \<Longrightarrow>
   sourceExists env src sid w = (Inr False, emit (DbCount src sid) (w\<lparr>clock := clock w + 1\<rparr>))"
  by (simp add: sourceExists_def kb_count_where_def db_call_def)

lemma sourceExists_up:
  "db_up env (clock w) \<Longrightarrow>
   sourceExists env src sid w =
     (Inr (\<exists>r\<in>set (rows w). matches src sid r),
      emit (DbCount src sid) (w\<lparr>clock := clock w + 1\<rparr>))"
  by (simp add: sourceExists_def kb_count_where_def db_call_def emit_def filter_empty_conv)

lemma loadSlackChannel_loop_throws:
  "slackPage env channel page = Throws \<Longrightarrow>
   loadSlackChannel_loop env channel page msgs w =
     Some (Inr msgs, emit (FetchSlack channel page) w)"
  by (subst loadSlackChannel_loop.simps) simp

lemma loadSlackChannel_loop_bad_status:
  "slackPage env channel page = Status False data \<Longrightarrow>
   loadSlackChannel_loop env channel page msgs w =
     Some (Inr msgs, emit (FetchSlack channel page) w)"
  by (subst loadSlackChannel_loop.simps) simp

lemma storeChunks_down:
  "\<not> db_up env (clock w) \<Longrightarrow>
   storeChunks d env src sid chunks embeddings w =
     (Inl StoreUnavailable, emit (DbDestroy src sid) (w\<lparr>clock := clock w + 1\<rparr>))"
  by (simp add: storeChunks_def kb_destroy_down)

lemma findSimilarChunks_down:
  "\<not> db_up env (clock w) \<Longrightarrow> length q = d \<Longrightarrow>
   findSimilarChunks d distance env q k w =
     (Inl StoreUnavailable, emit DbQuery (w\<lparr>clock := clock w + 1\<rparr>))"
  by (simp add: findSimilarChunks_def db_call_def)

lemma kb_count_up:
  "db_up env (clock w) \<Longrightarrow>
   kb_count env w = (Inr (length (rows w)), emit DbCountAll (w\<lparr>clock := clock w + 1\<rparr>))"
  by (simp add: kb_count_def db_call_def emit_def)

lemma ask_down:
  "\<not> db_up env (clock w) \<Longrightarrow>
   ask d distance env userQuestion w =
     (Inl StoreUnavailable, emit DbCountAll (w\<lparr>clock := clock w + 1\<rparr>))"
  by (simp add: ask_def kb_count_def db_call_def)

lemma ask_embedding_fails:
  "kb_count env w = (Inr n, w1) \<Longrightarrow> n \<noteq> 0 \<Longrightarrow>
   getEmbedding d env userQuestion w1 = (Inl e, w2) \<Longrightarrow>
   ask d distance env userQuestion w = (Inl e, w2)"
  by (simp add: ask_def)

lemma ask_search_fails:
  "kb_count env w = (Inr n, w1) \<Longrightarrow> n \<noteq> 0 \<Longrightarrow>
   getEmbedding d env userQuestion w1 = (Inr v, w2) \<Longrightarrow>
   findSimilarChunks d distance env v 5 w2 = (Inl e, w3) \<Longrightarrow>
   ask d distance env userQuestion w = (Inl e, w3)"
  by (simp add: ask_def)

lemma ask_generation_fails:
  "kb_count env w = (Inr n, w1) \<Longrightarrow> n \<noteq> 0 \<Longrightarrow>
   getEmbedding d env userQuestion w1 = (Inr v, w2) \<Longrightarrow>
   findSimilarChunks d distance env v 5 w2 = (Inr cs, w3) \<Longrightarrow> cs \<noteq> [] \<Longrightarrow>
   generateContent env (prompt cs userQuestion) = Inl e \<Longrightarrow>
   ask d distance env userQuestion w =
     (Inl e, emit (GenerateContent (prompt cs userQuestion)) w3)"
  by (simp add: ask_def)

lemma getEmbedding_no_key:
  "\<not> api_key env \<Longrightarrow> getEmbedding d env t w = (Inl MissingApiKey, w)"
  by (simp add: getEmbedding_def)

lemma getEmbedding_fails:
  "api_key env \<Longrightarrow> embedContent env t = Inl e \<Longrightarrow>
   getEmbedding d env t w = (Inl e, emit (EmbedContent t) w)"
  by (simp add: getEmbedding_def)

lemma getEmbedding_no_array:
  "api_key env \<Longrightarrow> embedContent env t = Inr None \<or> embedContent env t = Inr (Some []) \<Longrightarrow>
   getEmbedding d env t w = (Inl ExtractionFailed, emit (EmbedContent t) w)"
  by (auto simp: getEmbedding_def)

lemma loadArticle_unknown:
  "articleId \<notin> set articleIds \<Longrightarrow> loadArticle env articleId w = (Inl UnknownArticle, w)"
  by (simp add: loadArticle_def)

lemma loadArticle_fails:
  "articleId \<in> set articleIds \<Longrightarrow>
   fetchArticle env articleId = Throws \<or> fetchArticle env articleId = Status False body \<Longrightarrow>
   loadArticle env articleId w = (Inl SourceUnavailable, emit (FetchArticle articleId) w)"
  by (auto simp: loadArticle_def)

text \<open>
  Claim C8 says that every failure other than one caught at the batch driver reaches the
  immediate caller, and names the existence check and the chat feed. These are the two
  places where the code catches instead: \<open>sourceExists\<close> turns a failure of the store
  into the answer \<open>false\<close>, and \<open>loadSlackChannel\<close> turns a page that cannot be fetched
  into the messages gathered so far. As amended, with every place where one of the other
  functions can fail: a store failure in \<open>sourceExists\<close> gives \<open>false\<close>, and a fetch that
  throws or comes back with a bad status ends \<open>loadSlackChannel\<close> with the messages
  gathered so far. Every other failure is passed on to the immediate caller after a
  single attempt, with no retry and no default result: in \<open>getEmbedding\<close> the missing
  key (nothing is sent), the failing call, and a response with no array or an empty one;
  in \<open>loadPDF\<close> the failing read; in \<open>loadArticle\<close> the unknown id (nothing is
  fetched), the fetch that throws and the bad status; in \<open>storeChunks\<close> the failing
  delete and the failing insert at any position \<open>i\<close>, be it refused by the database,
  rejected for the length of its vector, or without a vector at all; in
  \<open>findSimilarChunks\<close> the failing query; in \<open>ask\<close> the failing count and whatever
  \<open>getEmbedding\<close>, \<open>findSimilarChunks\<close> or the generating model fail with. The trace of
  the resulting state shows the single attempt.
\<close>

theorem failure_propagation:
  "(\<not> db_up env (clock w) \<longrightarrow>
      sourceExists env src sid w =
        (Inr False, emit (DbCount src sid) (w\<lparr>clock := clock w + 1\<rparr>))) \<and>
   (slackPage env channel page = Throws \<longrightarrow>
      loadSlackChannel_loop env channel page msgs w =
        Some (Inr msgs, emit (FetchSlack channel page) w)) \<and>
   (slackPage env channel page = Status False data \<longrightarrow>
      loadSlackChannel_loop env channel page msgs w =
        Some (Inr msgs, emit (FetchSlack channel page) w)) \<and>
   (\<not> api_key env \<longrightarrow> getEmbedding d env userQuestion w = (Inl MissingApiKey, w)) \<and>
   (api_key env \<and> embedContent env userQuestion = Inl e \<longrightarrow>
      getEmbedding d env userQuestion w = (Inl e, emit (EmbedContent userQuestion) w)) \<and>
   (api_key env \<and>
    (embedContent env userQuestion = Inr None \<or> embedContent env userQuestion = Inr (Some []))
    \<longrightarrow>
      getEmbedding d env userQuestion w =
        (Inl ExtractionFailed, emit (EmbedContent userQuestion) w)) \<and>
   (readPdf env filePath = Inl e' \<longrightarrow>
      loadPDF env filePath w = (Inl e', emit (ReadPdf filePath) w)) \<and>
   (articleId \<notin> set articleIds \<longrightarrow>
      loadArticle env articleId w = (Inl UnknownArticle, w)) \<and>
   (articleId \<in> set articleIds \<and>
    (fetchArticle env articleId = Throws \<or> fetchArticle env articleId = Status False body)
    \<longrightarrow>
      loadArticle env articleId w =
        (Inl SourceUnavailable, emit (FetchArticle articleId) w)) \<and>
   (\<not> db_up env (clock w) \<longrightarrow>
      storeChunks d env src sid chunks embeddings w =
        (Inl StoreUnavailable, emit (DbDestroy src sid) (w\<lparr>clock := clock w + 1\<rparr>))) \<and>
   (db_up env (clock w) \<and>
    (\<forall>j<i. db_up env (clock w + 1 + j) \<and> j < length embeddings \<and>
       length (embeddings ! j) = d) \<and>
    i < length chunks \<and>
    (length embeddings \<le> i \<or> \<not> db_up env (clock w + 1 + i) \<or>
     length (embeddings ! i) \<noteq> d)
    \<longrightarrow>
      (\<exists>w'. storeChunks d env src sid chunks embeddings w =
               (Inl (if length embeddings \<le> i then TypeError
                     else if db_up env (clock w + 1 + i) then StatementRejected
                     else StoreUnavailable), w') \<and>
             trace w' = trace w @ DbDestroy src sid #
               map (DbInsert src sid) [0..<(if length embeddings \<le> i then i else Suc i)])) \<and>
   (\<not> db_up env (clock w) \<and> length q = d \<longrightarrow>
      findSimilarChunks d distance env q k w =
        (Inl StoreUnavailable, emit DbQuery (w\<lparr>clock := clock w + 1\<rparr>))) \<and>
   (\<not> db_up env (clock w) \<longrightarrow>
      ask d distance env userQuestion w =
        (Inl StoreUnavailable, emit DbCountAll (w\<lparr>clock := clock w + 1\<rparr>))) \<and>
   (kb_count env w = (Inr n, w1) \<and> n \<noteq> 0 \<and>
    getEmbedding d env userQuestion w1 = (Inl e1, w2)
    \<longrightarrow> ask d distance env userQuestion w = (Inl e1, w2)) \<and>
   (kb_count env w = (Inr n, w1) \<and> n \<noteq> 0 \<and>
    getEmbedding d env userQuestion w1 = (Inr v, w2) \<and>
    findSimilarChunks d distance env v 5 w2 = (Inl e2, w3)
    \<longrightarrow> ask d distance env userQuestion w = (Inl e2, w3)) \<and>
   (kb_count env w = (Inr n, w1) \<and> n \<noteq> 0 \<and>
    getEmbedding d env userQuestion w1 = (Inr v, w2) \<and>
    findSimilarChunks d distance env v 5 w2 = (Inr cs, w3) \<and> cs \<noteq> [] \<and>
    generateContent env (prompt cs userQuestion) = Inl e3
    \<longrightarrow> ask d distance env userQuestion w =
          (Inl e3, emit (GenerateContent (prompt cs userQuestion)) w3))"
proof (intro conjI impI; (elim conjE)?)
  show "sourceExists env src sid w =
      (Inr False, emit (DbCount src sid) (w\<lparr>clock := clock w + 1\<rparr>))"
    if "\<not> db_up env (clock w)"
    using that by (rule sourceExists_down)
  show "loadSlackChannel_loop env channel page msgs w =
      Some (Inr msgs, emit (FetchSlack channel page) w)"
    if "slackPage env channel page = Throws"
    using that by (rule loadSlackChannel_loop_throws)
  show "loadSlackChannel_loop env channel page msgs w =
      Some (Inr msgs, emit (FetchSlack channel page) w)"
    if "slackPage env channel page = Status False data"
    using that by (rule loadSlackChannel_loop_bad_status)
  show "getEmbedding d env userQuestion w = (Inl MissingApiKey, w)" if "\<not> api_key env"
    using that by (rule getEmbedding_no_key)
  show "getEmbedding d env userQuestion w = (Inl e, emit (EmbedContent userQuestion) w)"
    if "api_key env" "embedContent env userQuestion = Inl e"
    using that by (rule getEmbedding_fails)
  show "getEmbedding d env userQuestion w =
      (Inl ExtractionFailed, emit (EmbedContent userQuestion) w)"
    if "api_key env"
      "embedContent env userQuestion = Inr None \<or> embedContent env userQuestion = Inr (Some [])"
    using that by (rule getEmbedding_no_array)
  show "loadPDF env filePath w = (Inl e', emit (ReadPdf filePath) w)"
    if "readPdf env filePath = Inl e'"
    using that by (simp add: loadPDF_def)
  show "loadArticle env articleId w = (Inl UnknownArticle, w)"
    if "articleId \<notin> set articleIds"
    using that by (rule loadArticle_unknown)
  show "loadArticle env articleId w =
      (Inl SourceUnavailable, emit (FetchArticle articleId) w)"
    if "articleId \<in> set articleIds"
      "fetchArticle env articleId = Throws \<or> fetchArticle env articleId = Status False body"
    using that by (rule loadArticle_fails)
  show "storeChunks d env src sid chunks embeddings w =
      (Inl StoreUnavailable, emit (DbDestroy src sid) (w\<lparr>clock := clock w + 1\<rparr>))"
    if "\<not> db_up env (clock w)"
    using that by (rule storeChunks_down)
  show "\<exists>w'. storeChunks d env src sid chunks embeddings w =
         (Inl (if length embeddings \<le> i then TypeError
               else if db_up env (clock w + 1 + i) then StatementRejected
               else StoreUnavailable), w') \<and>
       trace w' = trace w @ DbDestroy src sid #
         map (DbInsert src sid) [0..<(if length embeddings \<le> i then i else Suc i)]"
    if "db_up env (clock w)"
      "\<forall>j<i. db_up env (clock w + 1 + j) \<and> j < length embeddings \<and>
         length (embeddings ! j) = d"
      "i < length chunks"
      "length embeddings \<le> i \<or> \<not> db_up env (clock w + 1 + i) \<or>
       length (embeddings ! i) \<noteq> d"
    using that by (rule storeChunks_insert_fails)
  show "findSimilarChunks d distance env q k w =
      (Inl StoreUnavailable, emit DbQuery (w\<lparr>clock := clock w + 1\<rparr>))"
    if "\<not> db_up env (clock w)" "length q = d"
    using that by (rule findSimilarChunks_down)
  show "ask d distance env userQuestion w =
      (Inl StoreUnavailable, emit DbCountAll (w\<lparr>clock := clock w + 1\<rparr>))"
    if "\<not> db_up env (clock w)"
    using that by (rule ask_down)
  show "ask d distance env userQuestion w = (Inl e1, w2)"
    if "kb_count env w = (Inr n, w1)" "n \<noteq> 0"
      "getEmbedding d env userQuestion w1 = (Inl e1, w2)"
    using that by (rule ask_embedding_fails)
  show "ask d distance env userQuestion w = (Inl e2, w3)"
    if "kb_count env w = (Inr n, w1)" "n \<noteq> 0"
      "getEmbedding d env userQuestion w1 = (Inr v, w2)"
      "findSimilarChunks d distance env v 5 w2 = (Inl e2, w3)"
    using that by (rule ask_search_fails)
  show "ask d distance env userQuestion w =
      (Inl e3, emit (GenerateContent (prompt cs userQuestion)) w3)"
    if "kb_count env w = (Inr n, w1)" "n \<noteq> 0"
      "getEmbedding d env userQuestion w1 = (Inr v, w2)"
      "findSimilarChunks d distance env v 5 w2 = (Inr cs, w3)" "cs \<noteq> []"
      "generateContent env (prompt cs userQuestion) = Inl e3"
    using that by (rule ask_generation_fails)
qed

text \<open>
  With the database down the existence check answers \<open>false\<close> for a source that has a
  row, and a feed whose first page cannot be fetched is loaded as the empty list.
\<close>

theorem failure_propagation_counterexample:
  "old_row (js ''pdf'') (js ''d'') \<in> set (rows demo_world) \<and>
   sourceExists (demo_env\<lparr>db_up := (\<lambda>n. False)\<rparr>) (js ''pdf'') (js ''d'') demo_world =
     (Inr False, emit (DbCount (js ''pdf'') (js ''d'')) (demo_world\<lparr>clock := 1\<rparr>)) \<and>
   slackPage demo_env (js ''lab-notes'') 1 = Throws \<and>
   loadSlackChannel demo_env (js ''lab-notes'') demo_world =
     Some (Inr [], emit (FetchSlack (js ''lab-notes'') 1) demo_world)"
proof -
  have "\<not> db_up (demo_env\<lparr>db_up := (\<lambda>n. False)\<rparr>) (clock demo_world)"
    by simp
  from sourceExists_down [OF this, of "js ''pdf''" "js ''d''"]
  have "sourceExists (demo_env\<lparr>db_up := (\<lambda>n. False)\<rparr>) (js ''pdf'') (js ''d'') demo_world =
     (Inr False, emit (DbCount (js ''pdf'') (js ''d'')) (demo_world\<lparr>clock := 1\<rparr>))"
    by (simp add: demo_world_def)
  moreover have t: "slackPage demo_env (js ''lab-notes'') 1 = Throws"
    by (simp add: demo_env_def)
  moreover from loadSlackChannel_loop_throws [OF t]
  have "loadSlackChannel demo_env (js ''lab-notes'') demo_world =
     Some (Inr [], emit (FetchSlack (js ''lab-notes'') 1) demo_world)"
    by (simp add: loadSlackChannel_def)
  ultimately show ?thesis
    by (simp add: demo_world_def)
qed

theorem failure_propagation_witness:
  "\<not> db_up failing_env (clock demo_world) \<and>
   sourceExists failing_env (js ''pdf'') (js ''d'') demo_world =
     (Inr False, emit (DbCount (js ''pdf'') (js ''d'')) (demo_world\<lparr>clock := 1\<rparr>)) \<and>
   loadSlackChannel_loop failing_env (js ''lab-notes'') 1 [] demo_world =
     Some (Inr [], emit (FetchSlack (js ''lab-notes'') 1) demo_world) \<and>
   loadSlackChannel_loop
     (demo_env\<lparr>slackPage := (\<lambda>c p. Status False \<lparr>messages = None, hasMore = None\<rparr>)\<rparr>)
     (js ''lab-notes'') 1 [] demo_world =
     Some (Inr [], emit (FetchSlack (js ''lab-notes'') 1) demo_world) \<and>
   getEmbedding EMBEDDING_DIMENSION (demo_env\<lparr>api_key := False\<rparr>) (js ''q'') demo_world =
     (Inl MissingApiKey, demo_world) \<and>
   getEmbedding EMBEDDING_DIMENSION failing_env (js ''q'') demo_world =
     (Inl EmbeddingUnavailable, emit (EmbedContent (js ''q'')) demo_world) \<and>
   getEmbedding EMBEDDING_DIMENSION (demo_env\<lparr>embedContent := (\<lambda>t. Inr None)\<rparr>) (js ''q'')
     demo_world = (Inl ExtractionFailed, emit (EmbedContent (js ''q'')) demo_world) \<and>
   getEmbedding EMBEDDING_DIMENSION (demo_env\<lparr>embedContent := (\<lambda>t. Inr (Some []))\<rparr>)
     (js ''q'') demo_world = (Inl ExtractionFailed, emit (EmbedContent (js ''q'')) demo_world) \<and>
   loadPDF failing_env (js ''f'') demo_world =
     (Inl SourceUnavailable, emit (ReadPdf (js ''f'')) demo_world) \<and>
   loadArticle demo_env (js ''unknown'') demo_world = (Inl UnknownArticle, demo_world) \<and>
   loadArticle failing_env (js ''hover-polo'') demo_world =
     (Inl SourceUnavailable, emit (FetchArticle (js ''hover-polo'')) demo_world) \<and>
   loadArticle (demo_env\<lparr>fetchArticle := (\<lambda>a. Status False (js ''gone''))\<rparr>)
     (js ''hover-polo'') demo_world =
     (Inl SourceUnavailable, emit (FetchArticle (js ''hover-polo'')) demo_world) \<and>
   storeChunks EMBEDDING_DIMENSION failing_env (js ''pdf'') (js ''d'') [js ''x'']
     [replicate 768 1] demo_world =
     (Inl StoreUnavailable,
      emit (DbDestroy (js ''pdf'') (js ''d'')) (demo_world\<lparr>clock := 1\<rparr>)) \<and>
   (\<exists>w'. storeChunks EMBEDDING_DIMENSION (demo_env\<lparr>db_up := (\<lambda>n. n < 2)\<rparr>) (js ''pdf'')
            (js ''d'') [js ''x'', js ''y'', js ''z'']
            [replicate 768 1, replicate 768 2, replicate 768 0] demo_world =
           (Inl StoreUnavailable, w') \<and>
         trace w' = [DbDestroy (js ''pdf'') (js ''d''), DbInsert (js ''pdf'') (js ''d'') 0,
                     DbInsert (js ''pdf'') (js ''d'') 1]) \<and>
   (\<exists>w'. storeChunks EMBEDDING_DIMENSION demo_env (js ''pdf'') (js ''d'') [js ''x''] [[1, 2]]
            demo_world = (Inl StatementRejected, w') \<and>
         trace w' = [DbDestroy (js ''pdf'') (js ''d''), DbInsert (js ''pdf'') (js ''d'') 0]) \<and>
   (\<exists>w'. storeChunks EMBEDDING_DIMENSION demo_env (js ''pdf'') (js ''d'')
            [js ''x'', js ''y''] [replicate 768 1] demo_world = (Inl TypeError, w') \<and>
         trace w' = [DbDestroy (js ''pdf'') (js ''d''), DbInsert (js ''pdf'') (js ''d'') 0]) \<and>
   findSimilarChunks EMBEDDING_DIMENSION cosineDistance failing_env (replicate 768 1) 5
     demo_world = (Inl StoreUnavailable, emit DbQuery (demo_world\<lparr>clock := 1\<rparr>)) \<and>
   ask EMBEDDING_DIMENSION cosineDistance failing_env (js ''q'') demo_world =
     (Inl StoreUnavailable, emit DbCountAll (demo_world\<lparr>clock := 1\<rparr>)) \<and>
   ask EMBEDDING_DIMENSION cosineDistance (demo_env\<lparr>api_key := False\<rparr>) (js ''q'')
     demo_world = (Inl MissingApiKey, emit DbCountAll (demo_world\<lparr>clock := 1\<rparr>)) \<and>
   (\<exists>w'. ask EMBEDDING_DIMENSION cosineDistance (demo_env\<lparr>db_up := (\<lambda>n. n = 0)\<rparr>)
            (js ''q'') demo_world = (Inl StoreUnavailable, w') \<and>
         trace w' = [DbCountAll, EmbedContent (js ''q''), DbQuery]) \<and>
   (\<exists>cs w'. ask EMBEDDING_DIMENSION cosineDistance
               (demo_env\<lparr>generateContent := (\<lambda>p. Inl GenerationUnavailable)\<rparr>)
               (js ''q'') abc_world = (Inl GenerationUnavailable, w') \<and>
            length cs = 3 \<and>
            trace w' = [DbCountAll, EmbedContent (js ''q''), DbQuery,
                        GenerateContent (prompt cs (js ''q''))])"
proof -
  let ?D = EMBEDDING_DIMENSION
  let ?q = "js ''q''"
  let ?pdf = "js ''pdf''"
  let ?d = "js ''d''"
  note D = EMBEDDING_DIMENSION_def
  have down: "\<not> db_up failing_env (clock demo_world)"
    by (simp add: failing_env_def)
  have c0: "clock demo_world = 0" "trace demo_world = []"
    by (simp_all add: demo_world_def)
  have 1: "sourceExists failing_env ?pdf ?d demo_world =
      (Inr False, emit (DbCount ?pdf ?d) (demo_world\<lparr>clock := 1\<rparr>))"
    using failure_propagation [where env = failing_env and w = demo_world and src = ?pdf
        and sid = ?d] down c0
    by simp
  have 2: "loadSlackChannel_loop failing_env (js ''lab-notes'') 1 [] demo_world =
      Some (Inr [], emit (FetchSlack (js ''lab-notes'') 1) demo_world)"
    using failure_propagation [where env = failing_env and w = demo_world
        and channel = "js ''lab-notes''" and page = 1 and msgs = "[]"]
    by (simp add: failing_env_def)
  let ?bad = "demo_env\<lparr>slackPage := (\<lambda>c p. Status False \<lparr>messages = None, hasMore = None\<rparr>)\<rparr>"
  have 3: "loadSlackChannel_loop ?bad (js ''lab-notes'') 1 [] demo_world =
      Some (Inr [], emit (FetchSlack (js ''lab-notes'') 1) demo_world)"
    using failure_propagation [where env = ?bad and w = demo_world
        and channel = "js ''lab-notes''" and page = 1 and msgs = "[]"
        and data = "\<lparr>messages = None, hasMore = None\<rparr>"]
    by simp
  have 4: "getEmbedding ?D (demo_env\<lparr>api_key := False\<rparr>) ?q demo_world =
      (Inl MissingApiKey, demo_world)"
    using failure_propagation [where env = "demo_env\<lparr>api_key := False\<rparr>" and w = demo_world
        and d = ?D and userQuestion = ?q]
    by simp
  have 5: "getEmbedding ?D failing_env ?q demo_world =
      (Inl EmbeddingUnavailable, emit (EmbedContent ?q) demo_world)"
    using failure_propagation [where env = failing_env and w = demo_world
        and d = ?D and userQuestion = ?q and e = EmbeddingUnavailable]
    by (simp add: failing_env_def)
  have 6: "getEmbedding ?D (demo_env\<lparr>embedContent := (\<lambda>t. Inr None)\<rparr>) ?q demo_world =
      (Inl ExtractionFailed, emit (EmbedContent ?q) demo_world)"
    using failure_propagation [where env = "demo_env\<lparr>embedContent := (\<lambda>t. Inr None)\<rparr>"
        and w = demo_world and d = ?D and userQuestion = ?q]
    by (simp add: demo_env_def)
  have 7: "getEmbedding ?D (demo_env\<lparr>embedContent := (\<lambda>t. Inr (Some []))\<rparr>) ?q demo_world =
      (Inl ExtractionFailed, emit (EmbedContent ?q) demo_world)"
    using failure_propagation [where env = "demo_env\<lparr>embedContent := (\<lambda>t. Inr (Some []))\<rparr>"
        and w = demo_world and d = ?D and userQuestion = ?q]
    by (simp add: demo_env_def)
  have 8: "loadPDF failing_env (js ''f'') demo_world =
      (Inl SourceUnavailable, emit (ReadPdf (js ''f'')) demo_world)"
    using failure_propagation [where env = failing_env and w = demo_world
        and filePath = "js ''f''" and e' = SourceUnavailable]
    by (simp add: failing_env_def)
  have unknown: "js ''unknown'' \<notin> set articleIds"
    by (simp add: articleIds_def js_def)
  have known: "js ''hover-polo'' \<in> set articleIds"
    by (simp add: articleIds_def)
  have 9: "loadArticle demo_env (js ''unknown'') demo_world = (Inl UnknownArticle, demo_world)"
    using failure_propagation [where env = demo_env and w = demo_world
        and articleId = "js ''unknown''"] unknown
    by simp
  have 10: "loadArticle failing_env (js ''hover-polo'') demo_world =
      (Inl SourceUnavailable, emit (FetchArticle (js ''hover-polo'')) demo_world)"
    using failure_propagation [where env = failing_env and w = demo_world
        and articleId = "js ''hover-polo''"] known
    by (simp add: failing_env_def)
  have 11: "loadArticle (demo_env\<lparr>fetchArticle := (\<lambda>a. Status False (js ''gone''))\<rparr>)
      (js ''hover-polo'') demo_world =
      (Inl SourceUnavailable, emit (FetchArticle (js ''hover-polo'')) demo_world)"
    using failure_propagation [where w = demo_world and articleId = "js ''hover-polo''"
        and env = "demo_env\<lparr>fetchArticle := (\<lambda>a. Status False (js ''gone''))\<rparr>"
        and body = "js ''gone''"] known
    by simp
  have 12: "storeChunks ?D failing_env ?pdf ?d [js ''x''] [replicate 768 1] demo_world =
      (Inl StoreUnavailable, emit (DbDestroy ?pdf ?d) (demo_world\<lparr>clock := 1\<rparr>))"
    using failure_propagation [where env = failing_env and w = demo_world and d = ?D
        and src = ?pdf and sid = ?d and chunks = "[js ''x'']"
        and embeddings = "[replicate 768 1]"] down c0
    by simp
  let ?two = "demo_env\<lparr>db_up := (\<lambda>n. n < 2)\<rparr>"
  have 13: "\<exists>w'. storeChunks ?D ?two ?pdf ?d [js ''x'', js ''y'', js ''z'']
        [replicate 768 1, replicate 768 2, replicate 768 0] demo_world =
        (Inl StoreUnavailable, w') \<and>
      trace w' = [DbDestroy ?pdf ?d, DbInsert ?pdf ?d 0, DbInsert ?pdf ?d 1]"
    using failure_propagation [where env = ?two and w = demo_world and d = ?D
        and src = ?pdf and sid = ?d and chunks = "[js ''x'', js ''y'', js ''z'']"
        and embeddings = "[replicate 768 1, replicate 768 2, replicate 768 0]" and i = 1] c0
    by (simp add: D upt_rec)
  have 14: "\<exists>w'. storeChunks ?D demo_env ?pdf ?d [js ''x''] [[1, 2]] demo_world =
        (Inl StatementRejected, w') \<and>
      trace w' = [DbDestroy ?pdf ?d, DbInsert ?pdf ?d 0]"
    using failure_propagation [where env = demo_env and w = demo_world and d = ?D
        and src = ?pdf and sid = ?d and chunks = "[js ''x'']"
        and embeddings = "[[1, 2]]" and i = 0] c0
    by (simp add: D demo_env_def)
  have 15: "\<exists>w'. storeChunks ?D demo_env ?pdf ?d [js ''x'', js ''y''] [replicate 768 1]
        demo_world = (Inl TypeError, w') \<and>
      trace w' = [DbDestroy ?pdf ?d, DbInsert ?pdf ?d 0]"
    using failure_propagation [where env = demo_env and w = demo_world and d = ?D
        and src = ?pdf and sid = ?d and chunks = "[js ''x'', js ''y'']"
        and embeddings = "[replicate 768 1]" and i = 1] c0
    by (simp add: D demo_env_def)
  have 16: "findSimilarChunks ?D cosineDistance failing_env (replicate 768 1) 5 demo_world =
      (Inl StoreUnavailable, emit DbQuery (demo_world\<lparr>clock := 1\<rparr>))"
    using failure_propagation [where env = failing_env and w = demo_world and d = ?D
        and q = "replicate 768 1" and distance = cosineDistance and k = 5] down c0
    by (simp add: D)
  have 17: "ask ?D cosineDistance failing_env ?q demo_world =
      (Inl StoreUnavailable, emit DbCountAll (demo_world\<lparr>clock := 1\<rparr>))"
    using failure_propagation [where env = failing_env and w = demo_world and d = ?D
        and distance = cosineDistance and userQuestion = ?q] down c0
    by simp
  let ?w1 = "emit DbCountAll (demo_world\<lparr>clock := 1\<rparr>)"
  let ?nokey = "demo_env\<lparr>api_key := False\<rparr>"
  have "kb_count ?nokey demo_world = (Inr 2, ?w1)"
    using kb_count_up [of ?nokey demo_world] by (simp add: demo_env_def demo_world_def)
  moreover have "getEmbedding ?D ?nokey ?q ?w1 = (Inl MissingApiKey, ?w1)"
    by (simp add: getEmbedding_no_key)
  ultimately have 18: "ask ?D cosineDistance ?nokey ?q demo_world = (Inl MissingApiKey, ?w1)"
    using failure_propagation [where env = ?nokey and w = demo_world and d = ?D
        and distance = cosineDistance and userQuestion = ?q and n = 2 and ?w1.0 = ?w1
        and ?e1.0 = MissingApiKey and ?w2.0 = ?w1]
    by simp
  let ?once = "demo_env\<lparr>db_up := (\<lambda>n. n = 0)\<rparr>"
  let ?v = "[1, 2] @ replicate 766 (0::real)"
  let ?w2 = "emit (EmbedContent ?q) ?w1"
  let ?w3 = "emit DbQuery (?w2\<lparr>clock := 2\<rparr>)"
  have "kb_count ?once demo_world = (Inr 2, ?w1)"
    using kb_count_up [of ?once demo_world] by (simp add: demo_world_def)
  moreover have "getEmbedding ?D ?once ?q ?w1 = (Inr ?v, ?w2)"
    by (simp add: getEmbedding_def demo_env_def D)
  moreover have "findSimilarChunks ?D cosineDistance ?once ?v 5 ?w2 = (Inl StoreUnavailable, ?w3)"
    using findSimilarChunks_down [of ?once ?w2 ?v ?D cosineDistance 5]
    by (simp add: D emit_def)
  ultimately have "ask ?D cosineDistance ?once ?q demo_world = (Inl StoreUnavailable, ?w3)"
    using failure_propagation [where env = ?once and w = demo_world and d = ?D
        and distance = cosineDistance and userQuestion = ?q and n = 2 and ?w1.0 = ?w1
        and v = ?v and ?w2.0 = ?w2 and ?e2.0 = StoreUnavailable and ?w3.0 = ?w3]
    by simp
  moreover have "trace ?w3 = [DbCountAll, EmbedContent ?q, DbQuery]"
    by (simp add: emit_def demo_world_def)
  ultimately have 19: "\<exists>w'. ask ?D cosineDistance ?once ?q demo_world = (Inl StoreUnavailable, w') \<and>
      trace w' = [DbCountAll, EmbedContent ?q, DbQuery]"
    by blast
  let ?gen = "demo_env\<lparr>generateContent := (\<lambda>p. Inl GenerationUnavailable)\<rparr>"
  let ?a1 = "emit DbCountAll (abc_world\<lparr>clock := 1\<rparr>)"
  let ?a2 = "emit (EmbedContent ?q) ?a1"
  let ?a3 = "emit DbQuery (?a2\<lparr>clock := 2\<rparr>)"
  let ?cs = "map fst (knn_query ?D cosineDistance ?v 5 (rows ?a2))"
  have k: "kb_count ?gen abc_world = (Inr 4, ?a1)"
    using kb_count_up [of ?gen abc_world] by (simp add: demo_env_def abc_world_def)
  have g: "getEmbedding ?D ?gen ?q ?a1 = (Inr ?v, ?a2)"
    by (simp add: getEmbedding_def demo_env_def D)
  have f: "findSimilarChunks ?D cosineDistance ?gen ?v 5 ?a2 = (Inr ?cs, ?a3)"
    using findSimilarChunks_up [of ?v ?D ?gen ?a2 cosineDistance 5]
    by (simp add: D emit_def demo_env_def abc_world_def)
  have "length ?cs = min 5 (length (filter (\<lambda>r. embeddingField ?D r \<noteq> None) (rows ?a2)))"
    using knn_query_props(2) [of ?D cosineDistance ?v 5 "rows ?a2"] by simp
  then have len: "length ?cs = 3"
    by (simp add: emit_def abc_world_def embeddingField_def D row_A_def row_B_def row_C_def
        row_N_def example_row_def)
  then have ne: "?cs \<noteq> []"
    by auto
  have gc: "generateContent ?gen (prompt ?cs ?q) = Inl GenerationUnavailable"
    by simp
  from k g f ne gc have "ask ?D cosineDistance ?gen ?q abc_world =
      (Inl GenerationUnavailable, emit (GenerateContent (prompt ?cs ?q)) ?a3)"
    using failure_propagation [where env = ?gen and w = abc_world and d = ?D
        and distance = cosineDistance and userQuestion = ?q and n = 4 and ?w1.0 = ?a1
        and v = ?v and ?w2.0 = ?a2 and cs = ?cs and ?w3.0 = ?a3
        and ?e3.0 = GenerationUnavailable]
    by simp
  moreover have "trace (emit (GenerateContent (prompt ?cs ?q)) ?a3) =
      [DbCountAll, EmbedContent ?q, DbQuery, GenerateContent (prompt ?cs ?q)]"
    by (simp add: emit_def abc_world_def)
  ultimately have 20: "\<exists>cs w'. ask ?D cosineDistance ?gen ?q abc_world =
        (Inl GenerationUnavailable, w') \<and> length cs = 3 \<and>
      trace w' = [DbCountAll, EmbedContent ?q, DbQuery, GenerateContent (prompt cs ?q)]"
    using len by blast
  from down 1 2 3 4 5 6 7 8 9 10 11 12 13 14 15 16 17 18 19 20 show ?thesis
    by (intro conjI)
qed

section \<open>Properties of the batch driver\<close>









section \<open>Ingesting a source that is already stored\<close>

lemma chunkText_one_word: "chunkText (js ''a'') 400 = Some [js ''a'']"
proof -
  have "concat (map piece (windows 400 (split_ws (js ''a'')))) = [js ''a'']"
    by code_simp
  then show ?thesis by (simp add: chunkText_windows)
qed

lemma ingest_demo_pdf:
  assumes "readPdf env = (\<lambda>p. Inr (js ''a''))" and "api_key env"
    and "embedContent env = (\<lambda>t. Inr (Some [1, 2]))"
    and "sourceExists env (js ''pdf'') sid w = (Inr False, w1)"
    and "db_up env (clock w1)" and "db_up env (clock w1 + 1)"
    and "to_single env = binary32"
  shows "ingestSource 768 env (Pdf sid) w =
     Some (Inr (),
       \<lparr>rows = filter (\<lambda>r. \<not> matches (js ''pdf'') sid r) (rows w1) @
          [new_row 768 (js ''pdf'') sid 0 (js ''a'') ([1, 2] @ replicate 766 0)],
        clock = clock w1 + 2,
        trace = trace w1 @ [ReadPdf (pdfPath sid), EmbedContent (js ''a''),
                  DbDestroy (js ''pdf'') sid, DbInsert (js ''pdf'') sid 0]\<rparr>)"
  using assms
  by (simp add: loadAllData_pdf_def loadPDF_def chunkText_one_word embedAndStore_def
      getEmbedding_def storeChunks_def kb_destroy_def kb_insert_def db_call_def emit_def
      new_row_def binary32_0 binary32_1 binary32_2)

text \<open>
  Claim C6 says that a source whose rows exist is skipped: no fetch, no embedding call,
  no store write. The skip hangs on the answer of \<open>sourceExists\<close>, which is
  \<open>false\<close> whenever the count fails. As amended: for every pair of source and source
  id for which rows exist in the store and whose existence check reaches the database,
  running the ingestion again only sends that one count: nothing is fetched, nothing is
  embedded, nothing is written, so ingesting twice in a row leaves exactly the rows of
  the first run.
\<close>

theorem ingestSource_skips:
  assumes "\<exists>r\<in>set (rows w). matches (item_source item) (item_id item) r"
    and "db_up env (clock w)"
  shows "ingestSource d env item w =
           Some (Inr (), emit (DbCount (item_source item) (item_id item))
                          (w\<lparr>clock := clock w + 1\<rparr>)) \<and>
         (\<forall>w0. ingestSource d env item w0 = Some (Inr (), w) \<longrightarrow>
            (\<exists>w2. ingestSource d env item w = Some (Inr (), w2) \<and> rows w2 = rows w \<and>
               trace w2 = trace w @ [DbCount (item_source item) (item_id item)]))"
proof -
  have "ingestSource d env item w =
      Some (Inr (), emit (DbCount (item_source item) (item_id item)) (w\<lparr>clock := clock w + 1\<rparr>))"
    using assms
    by (cases item)
      (simp_all add: loadAllData_pdf_def loadAllData_article_def loadAllData_slack_def
        sourceExists_up)
  then show ?thesis
    by (simp add: emit_def)
qed

text \<open>
  The store holds a row of the PDF \<open>d\<close> and the database fails the first statement
  only: the PDF is read, embedded and stored again.
\<close>

theorem ingestSource_skips_counterexample:
  "(\<exists>r\<in>set (rows demo_world). matches (js ''pdf'') (js ''d'') r) \<and>
   (\<exists>w'. ingestSource 768 (demo_env\<lparr>db_up := (\<lambda>n. n \<noteq> 0)\<rparr>) (Pdf (js ''d'')) demo_world =
           Some (Inr (), w') \<and>
         trace w' = [DbCount (js ''pdf'') (js ''d''), ReadPdf (pdfPath (js ''d'')),
                     EmbedContent (js ''a''), DbDestroy (js ''pdf'') (js ''d''),
                     DbInsert (js ''pdf'') (js ''d'') 0] \<and>
         rows w' = [old_row (js ''article'') (js ''d''),
                    new_row 768 (js ''pdf'') (js ''d'') 0 (js ''a'') ([1, 2] @ replicate 766 0)])"
proof -
  let ?env = "demo_env\<lparr>db_up := (\<lambda>n. n \<noteq> 0)\<rparr>"
  have ne: "js ''pdf'' \<noteq> js ''article''"
    by (simp add: js_def)
  have ex: "\<exists>r\<in>set (rows demo_world). matches (js ''pdf'') (js ''d'') r"
    by (simp add: demo_world_def matches_def old_row_def)
  have "\<not> db_up ?env (clock demo_world)"
    by (simp add: demo_world_def)
  from sourceExists_down [OF this, of "js ''pdf''" "js ''d''"]
  have s: "sourceExists ?env (js ''pdf'') (js ''d'') demo_world =
      (Inr False, emit (DbCount (js ''pdf'') (js ''d'')) (demo_world\<lparr>clock := clock demo_world + 1\<rparr>))" .
  have "ingestSource 768 ?env (Pdf (js ''d'')) demo_world =
     Some (Inr (),
       \<lparr>rows = [old_row (js ''article'') (js ''d''),
          new_row 768 (js ''pdf'') (js ''d'') 0 (js ''a'') ([1, 2] @ replicate 766 0)],
        clock = 3,
        trace = [DbCount (js ''pdf'') (js ''d''), ReadPdf (pdfPath (js ''d'')),
                 EmbedContent (js ''a''), DbDestroy (js ''pdf'') (js ''d''),
                 DbInsert (js ''pdf'') (js ''d'') 0]\<rparr>)"
    using ne
    by (subst ingest_demo_pdf [OF _ _ _ s])
      (simp_all add: demo_env_def demo_world_def emit_def matches_def old_row_def)
  with ex show ?thesis by simp
qed

theorem ingestSource_skips_witness:
  "\<exists>w1 w2.
     ingestSource 768 demo_env (Pdf (js ''n'')) demo_world = Some (Inr (), w1) \<and>
     (\<exists>r\<in>set (rows w1). matches (item_source (Pdf (js ''n''))) (item_id (Pdf (js ''n''))) r) \<and>
     db_up demo_env (clock w1) \<and>
     ingestSource 768 demo_env (Pdf (js ''n'')) w1 = Some (Inr (), w2) \<and>
     rows w2 = rows w1 \<and>
     trace w2 = trace w1 @ [DbCount (js ''pdf'') (js ''n'')] \<and>
     filter (matches (js ''pdf'') (js ''n'')) (rows w2) =
       [new_row 768 (js ''pdf'') (js ''n'') 0 (js ''a'') ([1, 2] @ replicate 766 0)]"
proof -
  have ne: "js ''n'' \<noteq> js ''d''" "js ''pdf'' \<noteq> js ''article''"
    by (simp_all add: js_def)
  have up: "db_up demo_env (clock demo_world)"
    by (simp add: demo_env_def)
  have no: "\<not> (\<exists>r\<in>set (rows demo_world). matches (js ''pdf'') (js ''n'') r)"
    using ne by (simp add: demo_world_def matches_def old_row_def)
  have s: "sourceExists demo_env (js ''pdf'') (js ''n'') demo_world =
      (Inr False, emit (DbCount (js ''pdf'') (js ''n'')) (demo_world\<lparr>clock := clock demo_world + 1\<rparr>))"
    using no by (simp add: sourceExists_up [OF up])
  define w1 where "w1 =
     \<lparr>rows = [old_row (js ''pdf'') (js ''d''), old_row (js ''article'') (js ''d''),
          new_row 768 (js ''pdf'') (js ''n'') 0 (js ''a'') ([1, 2] @ replicate 766 0)],
        clock = 3,
        trace = [DbCount (js ''pdf'') (js ''n''), ReadPdf (pdfPath (js ''n'')),
                 EmbedContent (js ''a''), DbDestroy (js ''pdf'') (js ''n''),
                 DbInsert (js ''pdf'') (js ''n'') 0]\<rparr>"
  have first: "ingestSource 768 demo_env (Pdf (js ''n'')) demo_world = Some (Inr (), w1)"
    using ne unfolding w1_def
    by (subst ingest_demo_pdf [OF _ _ _ s])
      (simp_all add: demo_env_def demo_world_def emit_def matches_def old_row_def)
  have ex: "\<exists>r\<in>set (rows w1). matches (item_source (Pdf (js ''n''))) (item_id (Pdf (js ''n''))) r"
    by (simp add: w1_def)
  have up1: "db_up demo_env (clock w1)"
    by (simp add: demo_env_def)
  from ingestSource_skips [OF ex up1, of 768] first obtain w2 where
    second: "ingestSource 768 demo_env (Pdf (js ''n'')) w1 = Some (Inr (), w2)" and
    same: "rows w2 = rows w1" and
    tr: "trace w2 = trace w1 @ [DbCount (js ''pdf'') (js ''n'')]"
    by auto
  have "filter (matches (js ''pdf'') (js ''n'')) (rows w1) =
      [new_row 768 (js ''pdf'') (js ''n'') 0 (js ''a'') ([1, 2] @ replicate 766 0)]"
    using ne by (simp add: w1_def matches_def old_row_def new_row_def)
  with first ex up1 second same tr show ?thesis
    by auto
qed

section \<open>Properties of the similarity search\<close>

subsection \<open>The whole ranking\<close>

lemma knn_query_ranking:
  fixes d distance q k table
  defines "S \<equiv> sort_key (\<lambda>(r, v). distance v q) (candidates d table)"
  defines "g \<equiv> (\<lambda>(r, v). (r, 1 - distance v q))"
  shows "\<forall>(r, s)\<in>set (map g S).
           r \<in> set table \<and> (\<exists>v. embeddingField d r = Some v \<and> s = 1 - distance v q)"
proof -
  have "set S = set (candidates d table)"
    by (simp add: S_def)
  then show ?thesis
    by (auto simp: g_def set_candidates)
qed

lemma sorted_wrt_split:
  "sorted_wrt P (xs @ ys) \<Longrightarrow> \<forall>x\<in>set xs. \<forall>y\<in>set ys. P x y"
  by (simp add: sorted_wrt_append)

subsection \<open>The example\<close>

lemma dot_pad:
  "length a = length b \<Longrightarrow> dot (a @ replicate n 0) (b @ replicate n 0) = dot a b"
  by (simp add: dot_def zip_replicate sum_list_replicate)

lemma cosineDistance_pad:
  "length a = length b \<Longrightarrow>
   cosineDistance (a @ replicate n 0) (b @ replicate n 0) = cosineDistance a b"
  by (simp add: cosineDistance_def dot_pad)

lemma vector_A: "vector_A = [1, 0] @ replicate 766 0"
  by (simp add: vector_A_def binary32_0 binary32_1)

lemma vector_B: "vector_B = [0, 1] @ replicate 766 0"
  by (simp add: vector_B_def binary32_0 binary32_1)

lemma vector_C: "vector_C = [7549747 / 8388608, 13421773 / 134217728] @ replicate 766 0"
  by (simp add: vector_C_def binary32_0 binary32_9_10 binary32_1_10)

lemma length_vector_Q: "length vector_Q = EMBEDDING_DIMENSION"
  by (simp add: vector_Q_def EMBEDDING_DIMENSION_def)

lemma cosineDistance_plane:
  "cosineDistance [a, b] [1, 0] = 1 - a / sqrt (a * a + b * b)"
  by (simp add: cosineDistance_def dot_def)

lemma distance_A: "cosineDistance vector_A vector_Q = 0"
  unfolding vector_A vector_Q_def
  by (simp only: cosineDistance_pad cosineDistance_plane list.size) simp?

lemma distance_B: "cosineDistance vector_B vector_Q = 1"
  unfolding vector_B vector_Q_def
  by (simp only: cosineDistance_pad cosineDistance_plane list.size) simp?

lemma similarity_plane:
  fixes a b :: real
  assumes "0 < a" and "0 < b" and "b * 8 < a"
  shows "99 / 100 < a / sqrt (a * a + b * b)" and "a / sqrt (a * a + b * b) < 1"
proof -
  define aa bb where "aa = a * a" and "bb = b * b"
  have aa: "0 < aa" and bb: "0 < bb"
    using assms by (simp_all add: aa_def bb_def)
  have "(b * 8) * (b * 8) < a * a"
    using assms by (intro mult_strict_mono) simp_all
  then have small: "64 * bb < aa"
    by (simp add: aa_def bb_def)
  have pos: "0 < sqrt (aa + bb)"
    using aa bb by simp
  have "a\<^sup>2 < aa + bb"
    using bb by (simp add: aa_def power2_eq_square)
  then have lo: "a < sqrt (aa + bb)"
    by (rule real_less_rsqrt)
  have "(a * 100 / 99)\<^sup>2 = aa * 10000 / 9801"
    by (simp add: aa_def power2_eq_square)
  moreover have "aa + bb < aa * 10000 / 9801"
    using small aa by linarith
  ultimately have "aa + bb < (a * 100 / 99)\<^sup>2"
    by simp
  moreover have "0 \<le> a * 100 / 99"
    using assms by simp
  ultimately have hi: "sqrt (aa + bb) < a * 100 / 99"
    by (intro real_less_lsqrt)
  then have "99 / 100 * sqrt (aa + bb) < a"
    by linarith
  with pos have "99 / 100 < a / sqrt (aa + bb)"
    by (simp only: pos_less_divide_eq)
  then show "99 / 100 < a / sqrt (a * a + b * b)"
    by (simp only: aa_def bb_def)
  from lo have "a < 1 * sqrt (aa + bb)"
    by simp
  with pos have "a / sqrt (aa + bb) < 1"
    by (simp only: pos_divide_less_eq)
  then show "a / sqrt (a * a + b * b) < 1"
    by (simp only: aa_def bb_def)
qed

lemma similarity_C:
  "99 / 100 < 1 - cosineDistance vector_C vector_Q"
  "1 - cosineDistance vector_C vector_Q < 1"
proof -
  let ?a = "7549747 / 8388608 :: real"
  let ?b = "13421773 / 134217728 :: real"
  have d: "cosineDistance vector_C vector_Q = 1 - ?a / sqrt (?a * ?a + ?b * ?b)"
    unfolding vector_C vector_Q_def
    by (simp only: cosineDistance_pad cosineDistance_plane list.size)
  have "0 < ?a" and "0 < ?b" and "?b * 8 < ?a"
    by simp_all
  from similarity_plane [OF this]
  have "99 / 100 < ?a / sqrt (?a * ?a + ?b * ?b)" and "?a / sqrt (?a * ?a + ?b * ?b) < 1"
    by blast+
  then show "99 / 100 < 1 - cosineDistance vector_C vector_Q"
    and "1 - cosineDistance vector_C vector_Q < 1"
    unfolding d by linarith+
qed

lemma compare_C:
  "\<not> cosineDistance vector_C vector_Q \<le> 0" "\<not> 1 \<le> cosineDistance vector_C vector_Q"
  using similarity_C by linarith+

lemma candidates_abc:
  "candidates 768 [row_B, row_N, row_C, row_A] =
     [(row_B, vector_B), (row_C, vector_C), (row_A, vector_A)]"
  by (simp add: candidates_def map_filter_simps embeddingField_def row_A_def row_B_def
      row_C_def row_N_def example_row_def)

lemma ranking_abc:
  "sort_key (\<lambda>(r, v). cosineDistance v vector_Q)
     [(row_B, vector_B), (row_C, vector_C), (row_A, vector_A)] =
     [(row_A, vector_A), (row_C, vector_C), (row_B, vector_B)]"
  by (simp add: distance_A distance_B compare_C)

lemma knn_query_abc:
  "map fst (knn_query 768 cosineDistance vector_Q (Suc 0) [row_B, row_N, row_C, row_A]) =
     [row_A]"
  "map fst (knn_query 768 cosineDistance vector_Q 2 [row_B, row_N, row_C, row_A]) =
     [row_A, row_C]"
  "map fst (knn_query 768 cosineDistance vector_Q 3 [row_B, row_N, row_C, row_A]) =
     [row_A, row_C, row_B]"
  unfolding knn_query_eq candidates_abc ranking_abc
  by simp_all

lemma findSimilarChunks_abc:
  "fst (findSimilarChunks EMBEDDING_DIMENSION cosineDistance demo_env vector_Q 1 abc_world) =
     Inr [row_A]"
  "fst (findSimilarChunks EMBEDDING_DIMENSION cosineDistance demo_env vector_Q 2 abc_world) =
     Inr [row_A, row_C]"
  "fst (findSimilarChunks EMBEDDING_DIMENSION cosineDistance demo_env vector_Q 3 abc_world) =
     Inr [row_A, row_C, row_B]"
proof -
  have up: "db_up demo_env (clock abc_world)"
    by (simp add: demo_env_def)
  have r: "rows abc_world = [row_B, row_N, row_C, row_A]"
    by (simp add: abc_world_def)
  note f = findSimilarChunks_up [OF length_vector_Q up, of cosineDistance]
  show "fst (findSimilarChunks EMBEDDING_DIMENSION cosineDistance demo_env vector_Q 1 abc_world) =
      Inr [row_A]"
    unfolding f r by (simp add: EMBEDDING_DIMENSION_def knn_query_abc)
  show "fst (findSimilarChunks EMBEDDING_DIMENSION cosineDistance demo_env vector_Q 2 abc_world) =
      Inr [row_A, row_C]"
    unfolding f r by (simp add: EMBEDDING_DIMENSION_def knn_query_abc)
  show "fst (findSimilarChunks EMBEDDING_DIMENSION cosineDistance demo_env vector_Q 3 abc_world) =
      Inr [row_A, row_C, row_B]"
    unfolding f r by (simp add: EMBEDDING_DIMENSION_def knn_query_abc)
qed

lemma embeddingField_configured: "embeddingField EMBEDDING_DIMENSION r = embeddings_768 r"
  by (simp add: embeddingField_def EMBEDDING_DIMENSION_def)

subsection \<open>Nearest neighbours\<close>

text \<open>
  Claim C1: for a question vector of the configured length, \<open>findSimilarChunks\<close>
  returns the first \<open>k\<close> rows of a ranking of the store (all of it when it has fewer):
  the ranking holds exactly the rows whose vector in the column of the configured
  dimension is not absent, each with its similarity, which is one minus the distance of
  its vector to the question, in descending order of similarity. So at most \<open>k\<close> rows
  come back, each with a vector, in descending order of similarity, and no row that is
  left out is more similar than a row that is returned. The claim gives its example
  with vectors of two entries. Here they are followed by zeros to the configured length,
  which changes no cosine distance, and held in single precision: the stored vectors
  are \<open>A = [1, 0, 0, \<dots>]\<close>, \<open>B = [0, 1, 0, \<dots>]\<close>, \<open>C = [0.9, 0.1, 0, \<dots>]\<close>, a fourth row
  has no vector, and the question is \<open>[1, 0, 0, \<dots>]\<close>. With the cosine distance the
  similarities are 1 for \<open>A\<close>, between 0.99 and 1 for \<open>C\<close> and 0 for \<open>B\<close>; the answer
  is \<open>A\<close> for \<open>k = 1\<close>, \<open>A\<close> then \<open>C\<close> for \<open>k = 2\<close>, and \<open>A\<close>, \<open>C\<close>, \<open>B\<close> for \<open>k = 3\<close>.
\<close>

theorem findSimilarChunks_ranking:
  "(length q = EMBEDDING_DIMENSION \<and> db_up env (clock w) \<longrightarrow>
      (\<exists>ranked rest w'.
         findSimilarChunks EMBEDDING_DIMENSION distance env q k w = (Inr (map fst ranked), w') \<and>
         length ranked \<le> k \<and>
         length ranked = min k (length (filter (\<lambda>r. embeddings_768 r \<noteq> None) (rows w))) \<and>
         mset (map fst (ranked @ rest)) =
           mset (filter (\<lambda>r. embeddings_768 r \<noteq> None) (rows w)) \<and>
         (\<forall>(r, s)\<in>set (ranked @ rest).
            r \<in> set (rows w) \<and> (\<exists>v. embeddings_768 r = Some v \<and> s = 1 - distance v q)) \<and>
         sorted_wrt (\<lambda>a b. snd a \<ge> snd b) (ranked @ rest) \<and>
         (\<forall>(r, s)\<in>set ranked. \<forall>(r', s')\<in>set rest. s' \<le> s))) \<and>
   (length a = length b \<longrightarrow>
      cosineDistance (a @ replicate n 0) (b @ replicate n 0) = cosineDistance a b) \<and>
   length vector_Q = EMBEDDING_DIMENSION \<and>
   1 - cosineDistance vector_A vector_Q = 1 \<and>
   99 / 100 < 1 - cosineDistance vector_C vector_Q \<and>
   1 - cosineDistance vector_C vector_Q < 1 \<and>
   1 - cosineDistance vector_B vector_Q = 0 \<and>
   fst (findSimilarChunks EMBEDDING_DIMENSION cosineDistance demo_env vector_Q 1 abc_world) =
     Inr [row_A] \<and>
   fst (findSimilarChunks EMBEDDING_DIMENSION cosineDistance demo_env vector_Q 2 abc_world) =
     Inr [row_A, row_C] \<and>
   fst (findSimilarChunks EMBEDDING_DIMENSION cosineDistance demo_env vector_Q 3 abc_world) =
     Inr [row_A, row_C, row_B]"
proof (intro conjI impI)
  assume a: "length q = EMBEDDING_DIMENSION \<and> db_up env (clock w)"
  let ?S = "sort_key (\<lambda>(r, v). distance v q) (candidates EMBEDDING_DIMENSION (rows w))"
  let ?g = "\<lambda>(r, v). (r, 1 - distance v q)"
  let ?ranked = "knn_query EMBEDDING_DIMENSION distance q k (rows w)"
  let ?rest = "map ?g (drop k ?S)"
  note p = knn_query_props [where d = EMBEDDING_DIMENSION and distance = distance
      and q = q and table = "rows w",
      unfolded embeddingField_configured]
  note all = knn_query_ranking [where distance = distance and q = q
      and d = EMBEDDING_DIMENSION and table = "rows w",
      unfolded embeddingField_configured]
  have f: "findSimilarChunks EMBEDDING_DIMENSION distance env q k w =
      (Inr (map fst ?ranked), emit DbQuery (w\<lparr>clock := clock w + 1\<rparr>))"
    using a by (simp add: findSimilarChunks_up)
  have l: "length ?ranked \<le> k"
    using p(2) by simp
  have s: "sorted_wrt (\<lambda>a b. snd a \<ge> snd b) (?ranked @ ?rest)"
    using p(4) unfolding p(1) .
  have m: "mset (map fst (?ranked @ ?rest)) =
      mset (filter (\<lambda>r. embeddings_768 r \<noteq> None) (rows w))"
    using p(5) unfolding p(1) .
  have t: "\<forall>(r, s)\<in>set (?ranked @ ?rest).
      r \<in> set (rows w) \<and> (\<exists>v. embeddings_768 r = Some v \<and> s = 1 - distance v q)"
    using all unfolding p(1) .
  have "\<forall>x\<in>set ?ranked. \<forall>y\<in>set ?rest. snd x \<ge> snd y"
    using s by (rule sorted_wrt_split)
  then have c: "\<forall>(r, s)\<in>set ?ranked. \<forall>(r', s')\<in>set ?rest. s' \<le> s"
    by fastforce
  show "\<exists>ranked rest w'.
      findSimilarChunks EMBEDDING_DIMENSION distance env q k w = (Inr (map fst ranked), w') \<and>
      length ranked \<le> k \<and>
      length ranked = min k (length (filter (\<lambda>r. embeddings_768 r \<noteq> None) (rows w))) \<and>
      mset (map fst (ranked @ rest)) =
        mset (filter (\<lambda>r. embeddings_768 r \<noteq> None) (rows w)) \<and>
      (\<forall>(r, s)\<in>set (ranked @ rest).
         r \<in> set (rows w) \<and> (\<exists>v. embeddings_768 r = Some v \<and> s = 1 - distance v q)) \<and>
      sorted_wrt (\<lambda>a b. snd a \<ge> snd b) (ranked @ rest) \<and>
      (\<forall>(r, s)\<in>set ranked. \<forall>(r', s')\<in>set rest. s' \<le> s)"
  proof (rule exI [of _ ?ranked], rule exI [of _ ?rest], rule exI, intro conjI)
    show "findSimilarChunks EMBEDDING_DIMENSION distance env q k w =
        (Inr (map fst ?ranked), emit DbQuery (w\<lparr>clock := clock w + 1\<rparr>))" by fact
    show "length ?ranked \<le> k" by fact
    show "length ?ranked = min k (length (filter (\<lambda>r. embeddings_768 r \<noteq> None) (rows w)))"
      by (rule p(2))
    show "mset (map fst (?ranked @ ?rest)) =
        mset (filter (\<lambda>r. embeddings_768 r \<noteq> None) (rows w))" by fact
    show "\<forall>(r, s)\<in>set (?ranked @ ?rest).
        r \<in> set (rows w) \<and> (\<exists>v. embeddings_768 r = Some v \<and> s = 1 - distance v q)" by fact
    show "sorted_wrt (\<lambda>a b. snd a \<ge> snd b) (?ranked @ ?rest)" by fact
    show "\<forall>(r, s)\<in>set ?ranked. \<forall>(r', s')\<in>set ?rest. s' \<le> s" by fact
  qed
next
  assume "length a = length b"
  then show "cosineDistance (a @ replicate n 0) (b @ replicate n 0) = cosineDistance a b"
    by (rule cosineDistance_pad)
next
  show "length vector_Q = EMBEDDING_DIMENSION"
    by (rule length_vector_Q)
  show "1 - cosineDistance vector_A vector_Q = 1"
    by (simp add: distance_A)
  show "99 / 100 < 1 - cosineDistance vector_C vector_Q"
    and "1 - cosineDistance vector_C vector_Q < 1"
    by (rule similarity_C)+
  show "1 - cosineDistance vector_B vector_Q = 0"
    by (simp add: distance_B)
  show "fst (findSimilarChunks EMBEDDING_DIMENSION cosineDistance demo_env vector_Q 1 abc_world)
      = Inr [row_A]"
    by (rule findSimilarChunks_abc)
  show "fst (findSimilarChunks EMBEDDING_DIMENSION cosineDistance demo_env vector_Q 2 abc_world)
      = Inr [row_A, row_C]"
    by (rule findSimilarChunks_abc)
  show "fst (findSimilarChunks EMBEDDING_DIMENSION cosineDistance demo_env vector_Q 3 abc_world)
      = Inr [row_A, row_C, row_B]"
    by (rule findSimilarChunks_abc)
qed

theorem findSimilarChunks_ranking_witness:
  "length vector_Q = EMBEDDING_DIMENSION \<and> db_up demo_env (clock abc_world) \<and>
   vector_Q = [1, 0] @ replicate 766 0 \<and>
   rows abc_world = [row_B, row_N, row_C, row_A] \<and>
   embeddings_768 row_A = Some ([1, 0] @ replicate 766 0) \<and>
   embeddings_768 row_B = Some ([0, 1] @ replicate 766 0) \<and>
   embeddings_768 row_C =
     Some ([7549747 / 8388608, 13421773 / 134217728] @ replicate 766 0) \<and>
   embeddings_768 row_N = None \<and>
   length [1, 0 :: real] = length [1, 0 :: real] \<and>
   cosineDistance ([1, 0] @ replicate 766 0) ([1, 0] @ replicate 766 0) =
     cosineDistance [1, 0] [1, 0] \<and>
   (\<exists>ranked rest w'.
      findSimilarChunks EMBEDDING_DIMENSION cosineDistance demo_env vector_Q 2 abc_world =
        (Inr (map fst ranked), w') \<and>
      map fst ranked = [row_A, row_C] \<and> map fst rest = [row_B] \<and>
      (\<forall>(r, s)\<in>set (ranked @ rest).
         r \<in> set (rows abc_world) \<and>
         (\<exists>v. embeddings_768 r = Some v \<and> s = 1 - cosineDistance v vector_Q)) \<and>
      sorted_wrt (\<lambda>a b. snd a \<ge> snd b) (ranked @ rest) \<and>
      (\<forall>(r, s)\<in>set ranked. \<forall>(r', s')\<in>set rest. s' \<le> s)) \<and>
   (\<exists>(ranked :: (row \<times> real) list) (rest :: (row \<times> real) list) w'.
      findSimilarChunks EMBEDDING_DIMENSION cosineDistance demo_env vector_Q 1 abc_world =
        (Inr (map fst ranked), w') \<and>
      map fst ranked = [row_A] \<and> mset (map fst rest) = {#row_B, row_C#} \<and>
      (\<forall>(r, s)\<in>set ranked. \<forall>(r', s')\<in>set rest. s' \<le> s))"
proof -
  have h: "length vector_Q = EMBEDDING_DIMENSION \<and> db_up demo_env (clock abc_world)"
    by (simp add: demo_env_def length_vector_Q)
  have r: "rows abc_world = [row_B, row_N, row_C, row_A]"
    by (simp add: abc_world_def)
  have v: "embeddings_768 row_A = Some ([1, 0] @ replicate 766 0)"
    "embeddings_768 row_B = Some ([0, 1] @ replicate 766 0)"
    "embeddings_768 row_C =
       Some ([7549747 / 8388608, 13421773 / 134217728] @ replicate 766 0)"
    "embeddings_768 row_N = None"
    by (simp_all add: row_A_def row_B_def row_C_def row_N_def example_row_def
        vector_A vector_B vector_C)
  have e: "filter (\<lambda>r. embeddings_768 r \<noteq> None) (rows abc_world) = [row_B, row_C, row_A]"
    unfolding r by (simp add: v)
  note two = findSimilarChunks_ranking [of vector_Q demo_env abc_world cosineDistance 2
      "[1, 0]" "[1, 0]" 766]
  note one = findSimilarChunks_ranking [of vector_Q demo_env abc_world cosineDistance 1
      "[1, 0]" "[1, 0]" 766]
  from two have pad: "cosineDistance ([1, 0] @ replicate 766 0) ([1, 0] @ replicate 766 0) =
      cosineDistance [1, 0] [1, 0]"
    by simp
  from two h obtain ranked rest w' where
    f: "findSimilarChunks EMBEDDING_DIMENSION cosineDistance demo_env vector_Q 2 abc_world =
        (Inr (map fst ranked), w')"
    and m: "mset (map fst (ranked @ rest)) =
        mset (filter (\<lambda>r. embeddings_768 r \<noteq> None) (rows abc_world))"
    and t: "\<forall>(r, s)\<in>set (ranked @ rest).
         r \<in> set (rows abc_world) \<and>
         (\<exists>v. embeddings_768 r = Some v \<and> s = 1 - cosineDistance v vector_Q)"
    and s: "sorted_wrt (\<lambda>a b. snd a \<ge> snd b) (ranked @ rest)"
    and c: "\<forall>(r, s)\<in>set ranked. \<forall>(r', s')\<in>set rest. s' \<le> s"
    by blast
  from two have "fst (findSimilarChunks EMBEDDING_DIMENSION cosineDistance demo_env vector_Q 2
      abc_world) = Inr [row_A, row_C]"
    by blast
  with f have k: "map fst ranked = [row_A, row_C]" by simp
  from m have "mset (map fst ranked) + mset (map fst rest) = mset [row_B, row_C, row_A]"
    unfolding e by simp
  then have "mset (map fst rest) = {#row_B#}"
    unfolding k by simp
  then have n: "map fst rest = [row_B]"
    by (simp only: mset_single_iff)
  have first: "\<exists>ranked rest w'.
      findSimilarChunks EMBEDDING_DIMENSION cosineDistance demo_env vector_Q 2 abc_world =
        (Inr (map fst ranked), w') \<and>
      map fst ranked = [row_A, row_C] \<and> map fst rest = [row_B] \<and>
      (\<forall>(r, s)\<in>set (ranked @ rest).
         r \<in> set (rows abc_world) \<and>
         (\<exists>v. embeddings_768 r = Some v \<and> s = 1 - cosineDistance v vector_Q)) \<and>
      sorted_wrt (\<lambda>a b. snd a \<ge> snd b) (ranked @ rest) \<and>
      (\<forall>(r, s)\<in>set ranked. \<forall>(r', s')\<in>set rest. s' \<le> s)"
  proof (rule exI [of _ ranked], rule exI [of _ rest], rule exI [of _ w'], intro conjI)
    show "findSimilarChunks EMBEDDING_DIMENSION cosineDistance demo_env vector_Q 2 abc_world =
        (Inr (map fst ranked), w')" by fact
    show "map fst ranked = [row_A, row_C]" by fact
    show "map fst rest = [row_B]" by fact
    show "\<forall>(r, s)\<in>set (ranked @ rest).
         r \<in> set (rows abc_world) \<and>
         (\<exists>v. embeddings_768 r = Some v \<and> s = 1 - cosineDistance v vector_Q)" by fact
    show "sorted_wrt (\<lambda>a b. snd a \<ge> snd b) (ranked @ rest)" by fact
    show "\<forall>(r, s)\<in>set ranked. \<forall>(r', s')\<in>set rest. s' \<le> s" by fact
  qed
  from one h obtain ranked1 rest1 :: "(row \<times> real) list" and w1 where
    f1: "findSimilarChunks EMBEDDING_DIMENSION cosineDistance demo_env vector_Q 1 abc_world =
        (Inr (map fst ranked1), w1)"
    and m1: "mset (map fst (ranked1 @ rest1)) =
        mset (filter (\<lambda>r. embeddings_768 r \<noteq> None) (rows abc_world))"
    and c1: "\<forall>(r, s)\<in>set ranked1. \<forall>(r', s')\<in>set rest1. s' \<le> s"
    by blast
  from one have "fst (findSimilarChunks EMBEDDING_DIMENSION cosineDistance demo_env vector_Q 1
      abc_world) = Inr [row_A]"
    by blast
  with f1 have k1: "map fst ranked1 = [row_A]" by simp
  from m1 have "mset (map fst ranked1) + mset (map fst rest1) = mset [row_B, row_C, row_A]"
    unfolding e by simp
  then have n1: "mset (map fst rest1) = {#row_B, row_C#}"
    unfolding k1 by simp
  have second: "\<exists>(ranked :: (row \<times> real) list) (rest :: (row \<times> real) list) w'.
      findSimilarChunks EMBEDDING_DIMENSION cosineDistance demo_env vector_Q 1 abc_world =
        (Inr (map fst ranked), w') \<and>
      map fst ranked = [row_A] \<and> mset (map fst rest) = {#row_B, row_C#} \<and>
      (\<forall>(r, s)\<in>set ranked. \<forall>(r', s')\<in>set rest. s' \<le> s)"
  proof (rule exI [of _ ranked1], rule exI [of _ rest1], rule exI [of _ w1], intro conjI)
    show "findSimilarChunks EMBEDDING_DIMENSION cosineDistance demo_env vector_Q 1 abc_world =
        (Inr (map fst ranked1), w1)" by fact
    show "map fst ranked1 = [row_A]" by fact
    show "mset (map fst rest1) = {#row_B, row_C#}" by fact
    show "\<forall>(r, s)\<in>set ranked1. \<forall>(r', s')\<in>set rest1. s' \<le> s" by fact
  qed
  have q: "vector_Q = [1, 0] @ replicate 766 0"
    by (simp add: vector_Q_def)
  have triv: "length [1, 0 :: real] = length [1, 0 :: real]"
    by simp
  from h r v q triv pad first second show ?thesis
    by (intro conjI) (simp_all only:)
qed

end
